theory Spec2Isabelle
  imports Main
begin

section \<open>The headless DOM engine, as far as \<open>JSDOMBackend.tsx\<close> talks to it\<close>

text \<open>
  \<open>JSDOMBackend.tsx\<close> is an adapter between a headless DOM engine (jsdom) and the
  callback props of a WebView. The engine is not part of the repository: it is
  represented here by the four things the adapter relies on: the title of the document
  that a piece of markup parses to; what a script text does when it is evaluated in
  the window of an instance; the serialised form of a URL, or that the string is not a
  URL; and the exception, if any, of a script text evaluated outside every instance. A
  script is observed through the sequence of window updates and of calls of window
  functions it performs. A theorem with a variable \<open>E\<close> holds for every engine.

  What the engine does on its own is left out: the scripts and resources of the markup
  itself, and the moment at which it fires the two events of a document (they are
  inputs of the model). A callback of the host is observed as a call with its argument;
  what the host does inside it is not modelled. The view that the component returns
  (lines 213-219) is a function of the status and the counter and is not modelled
  either.
\<close>

datatype js_value =
    JUndefined
  | JBoolean bool
  | JNumber int
  | JString string
  | JPostMessage
  | JObject "(string \<times> js_value) list"

text \<open>
  \<open>JPostMessage\<close> is the closure \<open>postMessage\<close> that \<open>initDOM\<close> creates (line 61) and
  stores on the window; \<open>JString\<close> are the values whose \<open>typeof\<close> is \<open>'string'\<close>.
\<close>

datatype js_error = Error string | TypeError string | ReferenceError string

datatype js_action =
    SetTitle string
  | SetHref string
  | SetGlobal string js_value
  | CallGlobal "string list" js_value

text \<open>
  \<open>SetTitle s\<close> is \<open>document.title = s\<close>, \<open>SetHref s\<close> a change of the navigation
  state after which \<open>location.href\<close> is \<open>s\<close>, \<open>SetGlobal k v\<close> is \<open>window[k] = v\<close>, and
  \<open>CallGlobal [k1, ..., kn] v\<close> is the call \<open>window.k1. ... .kn(v)\<close>.
\<close>

record engine =
  title_of :: "string \<Rightarrow> string"
  actions_of :: "string \<Rightarrow> js_action list"
  serialize_url :: "string \<Rightarrow> string option"
  outside_error :: "string \<Rightarrow> js_error option"

record location =
  href :: string

record document =
  title :: string

record window =
  location :: location
  document :: document
  globals :: "(string \<times> js_value) list"

datatype readyState = Loading | Interactive | Complete

section \<open>Events and callbacks\<close>

text \<open>
  The objects built at lines 53-60, 66, 89-96 and 103-107: \<open>url\<close> and \<open>title\<close> always,
  the other properties only where the object literal has them.
\<close>

record native_event =
  e_url :: string
  e_title :: string
  e_loading :: "bool option"
  e_navigationType :: "string option"
  e_progress :: "int option"
  e_data :: "js_value option"

text \<open>
  Modelled from the spec: \<open>createNativeEvent\<close> is imported from \<open>./events\<close>, which is
  not among the sources. The spec calls its result a synthetic event wrapping the
  payload, and lines 101 and 110 read the payload back as \<open>.nativeEvent\<close>.
\<close>

datatype event_arg = Event native_event | Bare native_event

definition createNativeEvent :: "native_event \<Rightarrow> event_arg" where
  "createNativeEvent e = Event e"

fun nativeEvent :: "event_arg \<Rightarrow> native_event" where
  "nativeEvent (Event e) = e"
| "nativeEvent (Bare e) = e"

datatype handler_name =
  OnMessage | OnLoadStart | OnLoadProgress | OnLoad | OnLoadEnd | OnNavigationStateChange

text \<open>
  A callback is a function of the host application, known by its identity, or the
  wrapper that the component builds around the host's \<open>onLoad\<close>, if it has one
  (lines 147-153).
\<close>

datatype callback = HostFn nat | BackendOnLoad "nat option"

text \<open>
  Modelled from the spec: the type \<open>BackendState\<close> is declared in \<open>./types\<close>, which is
  not among the sources. The spec gives it the two values that lines 144, 149 and 202
  use.
\<close>

datatype BackendState = loading | loaded

text \<open>
  What the code does outside the DOM instance, in the order it does it: a call of a
  host function (under the name of the prop it was given as), a call of the
  component's state setter, an exception of a listener that the engine reports instead
  of propagating, a \<open>console.warn\<close>, and an exception thrown to the caller of a method
  of the handle.
\<close>

datatype effect =
    HostCall handler_name event_arg
  | SetBackendState BackendState
  | Uncaught js_error
  | ConsoleWarn string
  | Thrown js_error

text \<open>The idiom \<open>typeof f === 'function' && f(e)\<close>.\<close>

fun invoke :: "handler_name \<Rightarrow> callback option \<Rightarrow> event_arg \<Rightarrow> effect list" where
  "invoke n None a = []"
| "invoke n (Some (HostFn i)) a = [HostCall n a]"
| "invoke n (Some (BackendOnLoad userOnLoad)) a =
     SetBackendState loaded # (case userOnLoad of None \<Rightarrow> [] | Some i \<Rightarrow> [HostCall OnLoad a])"

section \<open>\<open>initDOM\<close>\<close>

text \<open>
  Modelled from the spec: the type \<open>DOMHandlers\<close> is declared in \<open>./types\<close>, which is
  not among the sources. It has the six optional callbacks that lines 44-49 and 134-139
  take from it. The host passes functions of its own (\<open>nat\<close>, their identities);
  \<open>initDOM\<close> receives callbacks, one of which the component has wrapped.
\<close>

record 'f DOMHandlers =
  onMessage :: "'f option"
  onLoad :: "'f option"
  onLoadStart :: "'f option"
  onLoadProgress :: "'f option"
  onLoadEnd :: "'f option"
  onNavigationStateChange :: "'f option"

record InitDOMParams = "callback DOMHandlers" +
  html :: string
  url :: "string option"
  injectedJavaScriptBeforeContentLoaded :: "string option"
  injectedJavascript :: "string option"
  javaScriptEnabled :: "bool option"
  userAgent :: "string option"
  param_loadCycleId :: int

datatype listener = ContentLoadedListener | LoadListener

text \<open>
  A DOM instance: its window, the options it was built with, how far the engine has
  got with the document, the listeners added to the window, and \<open>env\<close>, the variables
  of the call of \<open>initDOM\<close> that the closures of this instance (\<open>postMessage\<close> and the
  two listeners) have captured.
\<close>

record JSDOM =
  window :: window
  runScripts :: "string option"
  resources :: string
  ready :: readyState
  listeners :: "(string \<times> listener) list"
  env :: InitDOMParams

text \<open>JavaScript truthiness of an optional string and of an optional boolean.\<close>

fun truthy_string :: "string option \<Rightarrow> bool" where
  "truthy_string None = False"
| "truthy_string (Some s) = (s \<noteq> [])"

fun truthy_bool :: "bool option \<Rightarrow> bool" where
  "truthy_bool None = False"
| "truthy_bool (Some b) = b"

text \<open>
  Lines 53-60. Spreading \<open>eventBase\<close> runs both getters at that moment, and both read
  the variable \<open>dom\<close>. \<open>eventBase w\<close> is the spread once \<open>dom\<close> holds the instance whose
  window is \<open>w\<close>. The variable receives its value when \<open>new JSDOM\<close> returns (line 68):
  a spread before that, \<open>spread_eventBase None\<close>, raises.
\<close>

definition eventBase :: "window \<Rightarrow> native_event" where
  "eventBase w =
     \<lparr>e_url = href (location w), e_title = title (document w), e_loading = None,
      e_navigationType = None, e_progress = None, e_data = None\<rparr>"

fun spread_eventBase :: "window option \<Rightarrow> js_error + native_event" where
  "spread_eventBase None = Inl (ReferenceError ''Cannot access dom before initialization'')"
| "spread_eventBase (Some w) = Inr (eventBase w)"

text \<open>
  Lines 61-67. The second argument is the window of \<open>dom\<close> at the moment of the call, or
  \<open>None\<close> while \<open>dom\<close> has no value. The argument of \<open>onMessage\<close> is built only after the
  test that \<open>onMessage\<close> is a function.
\<close>

fun typeof :: "js_value \<Rightarrow> string" where
  "typeof JUndefined = ''undefined''"
| "typeof (JBoolean b) = ''boolean''"
| "typeof (JNumber n) = ''number''"
| "typeof (JString s) = ''string''"
| "typeof JPostMessage = ''function''"
| "typeof (JObject ps) = ''object''"

definition postMessage :: "InitDOMParams \<Rightarrow> window option \<Rightarrow> js_value \<Rightarrow> effect list \<times> js_error option" where
  "postMessage p dom_window message =
     (if typeof message \<noteq> ''string''
      then ([], Some (Error ''WebView: the argument of postMessage must be a string''))
      else if onMessage p = None then ([], None)
      else (case spread_eventBase dom_window of
              Inl e \<Rightarrow> ([], Some e)
            | Inr base \<Rightarrow>
                (invoke OnMessage (onMessage p) (createNativeEvent (base\<lparr>e_data := Some message\<rparr>)),
                 None)))"

text \<open>Property lookup along a path, from the window's own properties.\<close>

fun lookup_path :: "(string \<times> js_value) list \<Rightarrow> string list \<Rightarrow> js_value" where
  "lookup_path g [] = JUndefined"
| "lookup_path g [k] = (case map_of g k of None \<Rightarrow> JUndefined | Some v \<Rightarrow> v)"
| "lookup_path g (k # ks) =
     (case map_of g k of Some (JObject g') \<Rightarrow> lookup_path g' ks | _ \<Rightarrow> JUndefined)"

text \<open>
  One step of a script in the window \<open>w\<close> of an instance. Calling anything that is not a
  function is a \<open>TypeError\<close>; the only function the adapter puts on the window is
  \<open>postMessage\<close>. \<open>constructed\<close> tells whether \<open>new JSDOM\<close> has returned, that is, whether
  \<open>dom\<close> holds the instance of this window.
\<close>

fun exec_action :: "InitDOMParams \<Rightarrow> bool \<Rightarrow> js_action \<Rightarrow> window \<Rightarrow> window \<times> effect list \<times> js_error option" where
  "exec_action p constructed (SetTitle s) w = (w\<lparr>document := (document w)\<lparr>title := s\<rparr>\<rparr>, [], None)"
| "exec_action p constructed (SetHref s) w = (w\<lparr>location := (location w)\<lparr>href := s\<rparr>\<rparr>, [], None)"
| "exec_action p constructed (SetGlobal k v) w = (w\<lparr>globals := (k, v) # globals w\<rparr>, [], None)"
| "exec_action p constructed (CallGlobal path v) w =
     (case lookup_path (globals w) path of
        JPostMessage \<Rightarrow>
          (case postMessage p (if constructed then Some w else None) v of
             (effs, err) \<Rightarrow> (w, effs, err))
      | _ \<Rightarrow> (w, [], Some (TypeError ''not a function'')))"

text \<open>A script runs its steps in order and stops at the first exception.\<close>

fun exec_actions :: "InitDOMParams \<Rightarrow> bool \<Rightarrow> js_action list \<Rightarrow> window \<Rightarrow> window \<times> effect list \<times> js_error option" where
  "exec_actions p constructed [] w = (w, [], None)"
| "exec_actions p constructed (a # as) w =
     (case exec_action p constructed a w of
        (w', effs, Some e) \<Rightarrow> (w', effs, Some e)
      | (w', effs, None) \<Rightarrow>
          (case exec_actions p constructed as w' of (w'', effs', err) \<Rightarrow> (w'', effs @ effs', err)))"

text \<open>
  Line 70, the option \<open>runScripts\<close>, and \<open>window.eval(script)\<close> on the window of an
  instance built with that option. Only with \<open>runScripts\<close> set has the window a script
  context of its own. Without it \<open>window.eval\<close> is the \<open>eval\<close> of the host: the script is
  evaluated outside the instance, it reaches neither the window nor the bridge, and
  the call raises what that evaluation raises.
\<close>

definition runScripts_option :: "InitDOMParams \<Rightarrow> string option" where
  "runScripts_option p = (if truthy_bool (javaScriptEnabled p) then Some ''dangerously'' else None)"

definition window_eval :: "engine \<Rightarrow> InitDOMParams \<Rightarrow> string option \<Rightarrow> bool \<Rightarrow> string \<Rightarrow> window \<Rightarrow> window \<times> effect list \<times> js_error option" where
  "window_eval E p run_scripts constructed script w =
     (if run_scripts = None then (w, [], outside_error E script)
      else exec_actions p constructed (actions_of E script) w)"

text \<open>
  Lines 73-81: the callback that the engine runs on the fresh window before it parses
  the markup, inside \<open>new JSDOM\<close>. It first stores the closure under the two names
  (lines 75-78).
\<close>

definition install_bridge :: "window \<Rightarrow> window" where
  "install_bridge w =
     (let w1 = w\<lparr>globals := (''postMessage'', JPostMessage) # globals w\<rparr>
      in w1\<lparr>globals :=
             (''ReactNativeWebView'', JObject [(''postMessage'', JPostMessage)]) # globals w1\<rparr>)"

definition beforeParse :: "engine \<Rightarrow> InitDOMParams \<Rightarrow> window \<Rightarrow> window \<times> effect list \<times> js_error option" where
  "beforeParse E p w =
     (if truthy_string (injectedJavaScriptBeforeContentLoaded p)
      then window_eval E p (runScripts_option p) False
             (the (injectedJavaScriptBeforeContentLoaded p)) (install_bridge w)
      else (install_bridge w, [], None))"

text \<open>
  \<open>new JSDOM(html, options)\<close>, lines 68-82. The engine first reads the options: with a
  \<open>url\<close> key (line 69) the string must be a URL, or the constructor raises, and the
  window is at its serialised form; without it the window is at the engine's default.
  The option \<open>userAgent\<close> (line 72) has no effect on the window. Then comes
  \<open>beforeParse\<close> on the fresh window, whose exception leaves the constructor, then the
  parse of the markup. The \<open>DOMContentLoaded\<close> and \<open>load\<close> events are not dispatched by
  the constructor: the engine dispatches them later (\<open>engine_DOMContentLoaded\<close>,
  \<open>engine_load\<close> below).
\<close>

definition fresh_window :: "string \<Rightarrow> window" where
  "fresh_window h = \<lparr>location = \<lparr>href = h\<rparr>, document = \<lparr>title = []\<rparr>, globals = []\<rparr>"

definition window_href :: "engine \<Rightarrow> InitDOMParams \<Rightarrow> string option" where
  "window_href E p =
     (if truthy_string (url p) then serialize_url E (the (url p)) else Some ''about:blank'')"

definition new_JSDOM :: "engine \<Rightarrow> InitDOMParams \<Rightarrow> effect list \<times> (js_error + JSDOM)" where
  "new_JSDOM E p =
     (case window_href E p of
        None \<Rightarrow> ([], Inl (TypeError ''Invalid URL''))
      | Some h \<Rightarrow>
          (case beforeParse E p (fresh_window h) of
             (w1, effs, Some e) \<Rightarrow> (effs, Inl e)
           | (w1, effs, None) \<Rightarrow>
               (effs,
                Inr \<lparr>window = w1\<lparr>document := (document w1)\<lparr>title := title_of E (html p)\<rparr>\<rparr>,
                     runScripts = runScripts_option p,
                     resources = ''usable'',
                     ready = Loading,
                     listeners = [],
                     env = p\<rparr>)))"

text \<open>
  Lines 83-87, the body of the \<open>DOMContentLoaded\<close> listener, on an instance built with
  the option \<open>run_scripts\<close>. The listeners run after \<open>new JSDOM\<close> has returned.
\<close>

definition contentLoaded_listener :: "engine \<Rightarrow> InitDOMParams \<Rightarrow> string option \<Rightarrow> window \<Rightarrow> window \<times> effect list \<times> js_error option" where
  "contentLoaded_listener E p run_scripts w =
     (if truthy_bool (javaScriptEnabled p) \<and> truthy_string (injectedJavascript p)
      then window_eval E p run_scripts True (the (injectedJavascript p)) w
      else (w, [], None))"

text \<open>Lines 88-102, the body of the \<open>load\<close> listener.\<close>

definition load_listener :: "InitDOMParams \<Rightarrow> window \<Rightarrow> effect list" where
  "load_listener p w =
     (let loadEvent = createNativeEvent ((eventBase w)\<lparr>e_navigationType := Some ''other''\<rparr>);
          loadProgress = createNativeEvent ((eventBase w)\<lparr>e_progress := Some 1\<rparr>)
      in invoke OnLoadProgress (onLoadProgress p) loadProgress
         @ invoke OnLoad (onLoad p) loadEvent
         @ invoke OnLoadEnd (onLoadEnd p) loadEvent
         @ invoke OnNavigationStateChange (onNavigationStateChange p) (Bare (nativeEvent loadEvent)))"

text \<open>Lines 39-112.\<close>

definition initDOM :: "engine \<Rightarrow> InitDOMParams \<Rightarrow> effect list \<times> (js_error + JSDOM)" where
  "initDOM E p =
     (case new_JSDOM E p of
        (effs, Inl e) \<Rightarrow> (effs, Inl e)
      | (effs, Inr dom0) \<Rightarrow>
          (let dom1 = dom0\<lparr>listeners := listeners dom0 @ [(''DOMContentLoaded'', ContentLoadedListener)]\<rparr>;
               dom = dom1\<lparr>listeners := listeners dom1 @ [(''load'', LoadListener)]\<rparr>;
               startEvent = createNativeEvent
                 ((eventBase (window dom))\<lparr>e_loading := Some True, e_navigationType := Some ''other''\<rparr>)
           in (effs
               @ invoke OnLoadStart (onLoadStart p) startEvent
               @ invoke OnNavigationStateChange (onNavigationStateChange p) (Bare (nativeEvent startEvent)),
               Inr dom)))"

section \<open>The engine dispatching the two events of a document\<close>

text \<open>
  Running one listener of an instance. An exception inside a listener does not reach
  the host: the engine reports it.
\<close>

fun run_listener :: "engine \<Rightarrow> listener \<Rightarrow> JSDOM \<Rightarrow> JSDOM \<times> effect list" where
  "run_listener E ContentLoadedListener d =
     (case contentLoaded_listener E (env d) (runScripts d) (window d) of
        (w, effs, None) \<Rightarrow> (d\<lparr>window := w\<rparr>, effs)
      | (w, effs, Some e) \<Rightarrow> (d\<lparr>window := w\<rparr>, effs @ [Uncaught e]))"
| "run_listener E LoadListener d = (d, load_listener (env d) (window d))"

fun run_listeners :: "engine \<Rightarrow> listener list \<Rightarrow> JSDOM \<Rightarrow> JSDOM \<times> effect list" where
  "run_listeners E [] d = (d, [])"
| "run_listeners E (l # ls) d =
     (case run_listener E l d of
        (d', effs) \<Rightarrow> (case run_listeners E ls d' of (d'', effs') \<Rightarrow> (d'', effs @ effs')))"

definition dispatchEvent :: "engine \<Rightarrow> string \<Rightarrow> JSDOM \<Rightarrow> JSDOM \<times> effect list" where
  "dispatchEvent E name d =
     run_listeners E (map snd (filter (\<lambda>(n, l). n = name) (listeners d))) d"

text \<open>
  A document fires \<open>DOMContentLoaded\<close> once, when its markup is parsed, and \<open>load\<close> once
  after that. The two functions are the engine reaching these points for an instance;
  at any other moment they do nothing.
\<close>

definition engine_DOMContentLoaded :: "engine \<Rightarrow> JSDOM \<Rightarrow> JSDOM \<times> effect list" where
  "engine_DOMContentLoaded E d =
     (if ready d = Loading
      then dispatchEvent E ''DOMContentLoaded'' (d\<lparr>ready := Interactive\<rparr>)
      else (d, []))"

definition engine_load :: "engine \<Rightarrow> JSDOM \<Rightarrow> JSDOM \<times> effect list" where
  "engine_load E d =
     (if ready d = Interactive
      then dispatchEvent E ''load'' (d\<lparr>ready := Complete\<rparr>)
      else (d, []))"

section \<open>The component \<open>JSDOMBackend\<close>\<close>

record DOMBackendProps =
  props_html :: string
  props_url :: string
  props_injectedJavascript :: "string option"
  props_javaScriptEnabled :: "bool option"
  props_injectedJavaScriptBeforeContentLoaded :: "string option"
  props_userAgent :: "string option"
  domHandlers :: "nat DOMHandlers"

text \<open>
  The object that \<open>useImperativeHandle\<close> publishes (lines 187-210): its methods are
  closures over the \<open>dom\<close>, \<open>loadCycleId\<close> and \<open>backendState\<close> of the render that made
  it, and \<open>dom\<close> is also a property of the object (line 188). A DOM instance is a
  mutable object, so the handle holds its address in the component's store.
\<close>

record handle =
  h_dom :: nat
  h_loadCycleId :: int
  h_backendState :: BackendState

text \<open>
  A mounted component: its props, the two \<open>useState\<close> variables, the dependencies and
  value that \<open>useMemo\<close> remembers, the forwarded reference, the store of every DOM
  instance built so far (a discarded instance lives on and may still fire its events),
  and the effects so far.
\<close>

record component =
  props :: DOMBackendProps
  backendState :: BackendState
  loadCycleId :: int
  memo :: "(InitDOMParams \<times> nat) option"
  ref_current :: "handle option"
  heap :: "JSDOM list"
  trace :: "effect list"

text \<open>An effect reaching the component: the state setter changes \<open>backendState\<close>.\<close>

fun apply_effect :: "effect \<Rightarrow> component \<Rightarrow> component" where
  "apply_effect (SetBackendState s) c =
     c\<lparr>backendState := s, trace := trace c @ [SetBackendState s]\<rparr>"
| "apply_effect e c = c\<lparr>trace := trace c @ [e]\<rparr>"

definition apply_effects :: "effect list \<Rightarrow> component \<Rightarrow> component" where
  "apply_effects effs c = fold apply_effect effs c"

text \<open>
  Lines 147-169: the argument of \<open>initDOM\<close>, with \<open>onLoad\<close> the wrapper of lines
  147-153. It has the same thirteen values as the dependency list of lines 170-184.
\<close>

definition initDOM_params :: "DOMBackendProps \<Rightarrow> int \<Rightarrow> InitDOMParams" where
  "initDOM_params pr n =
     \<lparr>onMessage = map_option HostFn (onMessage (domHandlers pr)),
      onLoad = Some (BackendOnLoad (onLoad (domHandlers pr))),
      onLoadStart = map_option HostFn (onLoadStart (domHandlers pr)),
      onLoadProgress = map_option HostFn (onLoadProgress (domHandlers pr)),
      onLoadEnd = map_option HostFn (onLoadEnd (domHandlers pr)),
      onNavigationStateChange = map_option HostFn (onNavigationStateChange (domHandlers pr)),
      html = props_html pr,
      url = Some (props_url pr),
      injectedJavaScriptBeforeContentLoaded = props_injectedJavaScriptBeforeContentLoaded pr,
      injectedJavascript = props_injectedJavascript pr,
      javaScriptEnabled = props_javaScriptEnabled pr,
      userAgent = props_userAgent pr,
      param_loadCycleId = n\<rparr>"

text \<open>
  One render (lines 144-220, without the view it returns): \<open>useMemo\<close> calls \<open>initDOM\<close>
  again when a dependency differs from the remembered ones, and the reference receives
  the handle of this render. An exception of \<open>initDOM\<close> is an exception of the render.
\<close>

definition render :: "engine \<Rightarrow> component \<Rightarrow> js_error + component" where
  "render E c =
     (let params = initDOM_params (props c) (loadCycleId c)
      in case (case memo c of
                 None \<Rightarrow> None
               | Some (deps, a) \<Rightarrow> if deps = params then Some a else None) of
           Some a \<Rightarrow>
             Inr (c\<lparr>ref_current :=
                      Some \<lparr>h_dom = a, h_loadCycleId = loadCycleId c,
                            h_backendState = backendState c\<rparr>\<rparr>)
         | None \<Rightarrow>
             (case initDOM E params of
                (effs, Inl e) \<Rightarrow> Inl e
              | (effs, Inr d) \<Rightarrow>
                  (let a = length (heap c);
                       c1 = apply_effects effs (c\<lparr>heap := heap c @ [d], memo := Some (params, a)\<rparr>)
                   in Inr (c1\<lparr>ref_current :=
                                Some \<lparr>h_dom = a, h_loadCycleId = loadCycleId c,
                                      h_backendState = backendState c\<rparr>\<rparr>))))"

definition mount :: "engine \<Rightarrow> DOMBackendProps \<Rightarrow> js_error + component" where
  "mount E pr =
     render E \<lparr>props = pr, backendState = loading, loadCycleId = 0, memo = None,
               ref_current = None, heap = [], trace = []\<rparr>"

subsection \<open>The methods of the handle (lines 189-209)\<close>

definition goBack :: "handle \<Rightarrow> component \<Rightarrow> component" where
  "goBack h c = c\<lparr>trace := trace c @ [ConsoleWarn ''goBack not implemented'']\<rparr>"

definition goForward :: "handle \<Rightarrow> component \<Rightarrow> component" where
  "goForward h c = c\<lparr>trace := trace c @ [ConsoleWarn ''goForward not implemented'']\<rparr>"

definition reload :: "handle \<Rightarrow> component \<Rightarrow> component" where
  "reload h c = c\<lparr>loadCycleId := h_loadCycleId h + 1\<rparr>"

definition stopLoading :: "handle \<Rightarrow> component \<Rightarrow> component" where
  "stopLoading h c = c\<lparr>trace := trace c @ [ConsoleWarn ''stopLoading not implemented'']\<rparr>"

text \<open>
  \<open>injectJavascript\<close> returns the exception of the script, if any, beside the
  component. A handle made by \<open>render\<close> holds an address of the store; for any other
  address there is no instance to evaluate in.
\<close>

definition injectJavascript :: "engine \<Rightarrow> handle \<Rightarrow> string \<Rightarrow> component \<Rightarrow> component \<times> js_error option" where
  "injectJavascript E h script c =
     (if h_backendState h = loaded \<and> h_dom h < length (heap c)
      then (let d = heap c ! h_dom h
            in case window_eval E (env d) (runScripts d) True script (window d) of
                 (w, effs, err) \<Rightarrow>
                   (apply_effects effs (c\<lparr>heap := (heap c)[h_dom h := d\<lparr>window := w\<rparr>]\<rparr>), err))
      else (c, None))"

definition getDocument :: "handle \<Rightarrow> component \<Rightarrow> document option" where
  "getDocument h c =
     (if h_dom h < length (heap c) then Some (document (window (heap c ! h_dom h))) else None)"

definition getWindow :: "handle \<Rightarrow> component \<Rightarrow> window option" where
  "getWindow h c =
     (if h_dom h < length (heap c) then Some (window (heap c ! h_dom h)) else None)"

subsection \<open>What happens to a mounted component\<close>

text \<open>
  The host calls a method of the handle it finds in the reference or passes new props,
  or the engine reaches \<open>DOMContentLoaded\<close> or \<open>load\<close> for the instance at an address.
  After each of them the component renders again.
\<close>

datatype action =
    Reload
  | StopLoading
  | GoBack
  | GoForward
  | InjectJavascript string
  | EngineDOMContentLoaded nat
  | EngineLoad nat
  | SetProps DOMBackendProps

definition engine_event :: "(JSDOM \<Rightarrow> JSDOM \<times> effect list) \<Rightarrow> nat \<Rightarrow> component \<Rightarrow> component" where
  "engine_event f a c =
     (if a < length (heap c)
      then (case f (heap c ! a) of (d, effs) \<Rightarrow> apply_effects effs (c\<lparr>heap := (heap c)[a := d]\<rparr>))
      else c)"

definition via_ref :: "(handle \<Rightarrow> component \<Rightarrow> component) \<Rightarrow> component \<Rightarrow> component" where
  "via_ref m c = (case ref_current c of None \<Rightarrow> c | Some h \<Rightarrow> m h c)"

fun act :: "engine \<Rightarrow> action \<Rightarrow> component \<Rightarrow> component" where
  "act E Reload c = via_ref reload c"
| "act E StopLoading c = via_ref stopLoading c"
| "act E GoBack c = via_ref goBack c"
| "act E GoForward c = via_ref goForward c"
| "act E (InjectJavascript s) c =
     via_ref (\<lambda>h c. case injectJavascript E h s c of
                      (c', None) \<Rightarrow> c'
                    | (c', Some e) \<Rightarrow> c'\<lparr>trace := trace c' @ [Thrown e]\<rparr>) c"
| "act E (EngineDOMContentLoaded a) c = engine_event (engine_DOMContentLoaded E) a c"
| "act E (EngineLoad a) c = engine_event (engine_load E) a c"
| "act E (SetProps pr) c = c\<lparr>props := pr\<rparr>"

definition step :: "engine \<Rightarrow> action \<Rightarrow> component \<Rightarrow> js_error + component" where
  "step E a c = render E (act E a c)"

fun run :: "engine \<Rightarrow> action list \<Rightarrow> component \<Rightarrow> js_error + component" where
  "run E [] c = Inr c"
| "run E (a # as) c = (case step E a c of Inl e \<Rightarrow> Inl e | Inr c' \<Rightarrow> run E as c')"

section \<open>Auxiliary notions and a concrete scene\<close>

text \<open>
  The listeners of an instance that \<open>initDOM\<close> returned, the arguments with which a
  callback was called, invariants of the store and of a mounted component, and a
  concrete engine, page and host on which the theorems are instantiated.
\<close>

definition installed :: "(string \<times> listener) list" where
  "installed = [(''DOMContentLoaded'', ContentLoadedListener), (''load'', LoadListener)]"

fun calls_of :: "handler_name \<Rightarrow> effect list \<Rightarrow> event_arg list" where
  "calls_of n [] = []"
| "calls_of n (HostCall m a # es) = (if m = n then a # calls_of n es else calls_of n es)"
| "calls_of n (e # es) = calls_of n es"

definition demo_engine :: engine where
  "demo_engine =
     \<lparr>title_of = (\<lambda>markup. if markup = ''<title>Home</title>'' then ''Home'' else []),
      actions_of = (\<lambda>script.
        if script = ''document.title = String(1)'' then [SetTitle ''1'']
        else if script = ''window.postMessage(42)'' then [CallGlobal [''postMessage''] (JNumber 42)]
        else if script = ''window.ReactNativeWebView.postMessage(String(7))''
          then [CallGlobal [''ReactNativeWebView'', ''postMessage''] (JString ''7'')]
        else if script = ''window.ready = true'' then [SetGlobal ''ready'' (JBoolean True)]
        else if script = ''document.title = String(2)'' then [SetTitle ''2'']
        else []),
      serialize_url = (\<lambda>u.
        if u = ''https://example.org/'' \<or> u = ''https://example.org''
        then Some ''https://example.org/'' else None),
      outside_error = (\<lambda>script.
        if script = ''document.title = String(1)'' \<or> script = ''document.title = String(2)''
        then Some (ReferenceError ''document is not defined'')
        else if script = ''window.postMessage(42)''
          \<or> script = ''window.ReactNativeWebView.postMessage(String(7))''
          \<or> script = ''window.ready = true''
        then Some (ReferenceError ''window is not defined'')
        else None)\<rparr>"

definition demo_handlers :: "nat DOMHandlers" where
  "demo_handlers =
     \<lparr>onMessage = Some 0, onLoad = Some 1, onLoadStart = Some 2, onLoadProgress = Some 3,
      onLoadEnd = Some 4, onNavigationStateChange = Some 5\<rparr>"

definition demo_props :: DOMBackendProps where
  "demo_props =
     \<lparr>props_html = ''<title>Home</title>'',
      props_url = ''https://example.org/'',
      props_injectedJavascript = Some ''document.title = String(1)'',
      props_javaScriptEnabled = Some True,
      props_injectedJavaScriptBeforeContentLoaded = Some ''window.ready = true'',
      props_userAgent = None,
      domHandlers = demo_handlers\<rparr>"

definition demo_params :: InitDOMParams where
  "demo_params = initDOM_params demo_props 0"

definition demo_event :: "string \<Rightarrow> native_event" where
  "demo_event t =
     \<lparr>e_url = ''https://example.org/'', e_title = t, e_loading = None,
      e_navigationType = None, e_progress = None, e_data = None\<rparr>"

definition demo_window :: "string \<Rightarrow> window" where
  "demo_window t =
     \<lparr>location = \<lparr>href = ''https://example.org/''\<rparr>, document = \<lparr>title = t\<rparr>,
      globals = [(''ready'', JBoolean True),
                 (''ReactNativeWebView'', JObject [(''postMessage'', JPostMessage)]),
                 (''postMessage'', JPostMessage)]\<rparr>"

definition demo_start :: "effect list" where
  "demo_start =
     [HostCall OnLoadStart
        (Event ((demo_event ''Home'')\<lparr>e_loading := Some True, e_navigationType := Some ''other''\<rparr>)),
      HostCall OnNavigationStateChange
        (Bare ((demo_event ''Home'')\<lparr>e_loading := Some True, e_navigationType := Some ''other''\<rparr>))]"

definition demo_dom :: "string \<Rightarrow> readyState \<Rightarrow> JSDOM" where
  "demo_dom t r =
     \<lparr>window = demo_window t, runScripts = Some ''dangerously'', resources = ''usable'',
      ready = r, listeners = installed, env = demo_params\<rparr>"

definition demo_host :: InitDOMParams where
  "demo_host = demo_params\<lparr>onLoad := Some (HostFn 6)\<rparr>"

definition demo_off :: InitDOMParams where
  "demo_off = demo_params\<lparr>javaScriptEnabled := Some False\<rparr>"

definition no_handlers :: "nat DOMHandlers" where
  "no_handlers =
     \<lparr>onMessage = None, onLoad = None, onLoadStart = None, onLoadProgress = None,
      onLoadEnd = None, onNavigationStateChange = None\<rparr>"

definition demo_bare :: DOMBackendProps where
  "demo_bare = demo_props\<lparr>domHandlers := no_handlers\<rparr>"

fun host_callback :: "callback option \<Rightarrow> bool" where
  "host_callback None = True"
| "host_callback (Some (HostFn i)) = True"
| "host_callback (Some (BackendOnLoad u)) = False"

definition built :: "JSDOM \<Rightarrow> bool" where
  "built d \<longleftrightarrow>
     listeners d = installed \<and> host_callback (onMessage (env d)) \<and>
     \<not> host_callback (onLoad (env d)) \<and> runScripts d = runScripts_option (env d)"

definition synced :: "engine \<Rightarrow> component \<Rightarrow> bool" where
  "synced E c \<longleftrightarrow>
     heap c \<noteq> [] \<and>
     memo c = Some (initDOM_params (props c) (loadCycleId c), length (heap c) - 1) \<and>
     ref_current c =
       Some \<lparr>h_dom = length (heap c) - 1, h_loadCycleId = loadCycleId c,
             h_backendState = backendState c\<rparr> \<and>
     list_all built (heap c) \<and>
     \<not> isl (snd (initDOM E (initDOM_params (props c) (loadCycleId c))))"

fun staged_memo :: "engine \<Rightarrow> (InitDOMParams \<times> nat) option \<Rightarrow> JSDOM list \<Rightarrow> bool" where
  "staged_memo E None hp = (hp = [])"
| "staged_memo E (Some (deps, a)) hp =
     (hp \<noteq> [] \<and> a = length hp - 1 \<and> \<not> isl (snd (initDOM E deps)))"

definition staged :: "engine \<Rightarrow> component \<Rightarrow> bool" where
  "staged E c \<longleftrightarrow> staged_memo E (memo c) (heap c) \<and> list_all built (heap c)"

definition demo_dom_at :: "int \<Rightarrow> string \<Rightarrow> readyState \<Rightarrow> JSDOM" where
  "demo_dom_at n t r = (demo_dom t r)\<lparr>env := initDOM_params demo_props n\<rparr>"

definition demo_component :: "int \<Rightarrow> BackendState \<Rightarrow> JSDOM list \<Rightarrow> effect list \<Rightarrow> component" where
  "demo_component n st hp tr =
     \<lparr>props = demo_props, backendState = st, loadCycleId = n,
      memo = Some (initDOM_params demo_props n, length hp - 1),
      ref_current = Some \<lparr>h_dom = length hp - 1, h_loadCycleId = n, h_backendState = st\<rparr>,
      heap = hp, trace = tr\<rparr>"

definition demo_loaded :: "effect list" where
  "demo_loaded =
     [HostCall OnLoadProgress (Event ((demo_event ''1'')\<lparr>e_progress := Some 1\<rparr>)),
      SetBackendState loaded,
      HostCall OnLoad (Event ((demo_event ''1'')\<lparr>e_navigationType := Some ''other''\<rparr>)),
      HostCall OnLoadEnd (Event ((demo_event ''1'')\<lparr>e_navigationType := Some ''other''\<rparr>)),
      HostCall OnNavigationStateChange (Bare ((demo_event ''1'')\<lparr>e_navigationType := Some ''other''\<rparr>))]"

definition demo_handle :: "BackendState \<Rightarrow> handle" where
  "demo_handle st = \<lparr>h_dom = 0, h_loadCycleId = 0, h_backendState = st\<rparr>"

definition reload_params :: "DOMBackendProps \<Rightarrow> int \<Rightarrow> nat \<Rightarrow> InitDOMParams" where
  "reload_params pr m k = initDOM_params pr (m + 1 + int k)"

definition demo_reloaded :: "nat \<Rightarrow> component" where
  "demo_reloaded n =
     demo_component (int n) loading
       (map (\<lambda>k. demo_dom_at (int k) ''Home'' Loading) [0..<Suc n])
       (concat (replicate (Suc n) demo_start))"

definition demo_post_before :: InitDOMParams where
  "demo_post_before =
     demo_params\<lparr>injectedJavaScriptBeforeContentLoaded :=
                   Some ''window.ReactNativeWebView.postMessage(String(7))''\<rparr>"

definition demo_post_main :: InitDOMParams where
  "demo_post_main =
     demo_params\<lparr>injectedJavascript := Some ''window.ReactNativeWebView.postMessage(String(7))''\<rparr>"

section \<open>Lemmas about one DOM instance\<close>

lemma dispatch_load_installed:
  "listeners d = installed \<Longrightarrow> dispatchEvent E ''load'' d = (d, load_listener (env d) (window d))"
  by (simp add: dispatchEvent_def installed_def)

lemma dispatch_contentLoaded_installed:
  "listeners d = installed \<Longrightarrow>
   dispatchEvent E ''DOMContentLoaded'' d = run_listener E ContentLoadedListener d"
  by (simp add: dispatchEvent_def installed_def split: prod.splits)

lemma new_JSDOM_Inr:
  "new_JSDOM E p = (effs, Inr d) \<Longrightarrow>
   listeners d = [] \<and> env d = p \<and> ready d = Loading \<and> resources d = ''usable'' \<and>
   runScripts d = runScripts_option p"
  by (auto simp: new_JSDOM_def split: prod.splits option.splits)

lemma fst_new_JSDOM:
  "fst (new_JSDOM E p) =
     (case window_href E p of
        None \<Rightarrow> []
      | Some h \<Rightarrow> fst (snd (beforeParse E p (fresh_window h))))"
  by (auto simp: new_JSDOM_def split: prod.splits option.splits)

lemma initDOM_Inr:
  assumes "initDOM E p = (effs, Inr d)"
  shows "listeners d = installed" and "env d = p" and "ready d = Loading"
    and "\<exists>pre. new_JSDOM E p = (pre, Inr (d\<lparr>listeners := []\<rparr>)) \<and>
           effs = pre
             @ invoke OnLoadStart (onLoadStart p)
                 (Event ((eventBase (window d))\<lparr>e_loading := Some True, e_navigationType := Some ''other''\<rparr>))
             @ invoke OnNavigationStateChange (onNavigationStateChange p)
                 (Bare ((eventBase (window d))\<lparr>e_loading := Some True, e_navigationType := Some ''other''\<rparr>))"
    and "runScripts d = runScripts_option p"
  using assms
  by (auto simp: initDOM_def Let_def installed_def createNativeEvent_def
           split: prod.splits sum.splits dest!: new_JSDOM_Inr)

lemma calls_of_append [simp]: "calls_of n (xs @ ys) = calls_of n xs @ calls_of n ys"
  by (induction n xs rule: calls_of.induct) auto

lemma calls_of_invoke_other:
  "n \<noteq> m \<Longrightarrow> n \<noteq> OnLoad \<Longrightarrow> calls_of n (invoke m cb a) = []"
  by (cases "(m, cb, a)" rule: invoke.cases) (auto split: option.splits)

lemma calls_of_invoke_HostFn:
  "calls_of n (invoke m (Some (HostFn i)) a) = (if m = n then [a] else [])"
  by simp

lemma postMessage_effects:
  "set (fst (postMessage p dw v)) \<subseteq> (\<Union>x. set (invoke OnMessage (onMessage p) x))"
  by (cases dw) (auto simp: postMessage_def)

lemma calls_of_postMessage:
  "n \<noteq> OnMessage \<Longrightarrow> n \<noteq> OnLoad \<Longrightarrow> calls_of n (fst (postMessage p dw v)) = []"
  by (cases dw) (auto simp: postMessage_def calls_of_invoke_other)

lemma calls_of_exec_action:
  "n \<noteq> OnMessage \<Longrightarrow> n \<noteq> OnLoad \<Longrightarrow>
   calls_of n (fst (snd (exec_action p k a w))) = []"
proof (cases a)
  case (CallGlobal path v)
  assume "n \<noteq> OnMessage" "n \<noteq> OnLoad"
  then have "calls_of n (fst (postMessage p (if k then Some w else None) v)) = []"
    by (rule calls_of_postMessage)
  then show ?thesis
    using CallGlobal by (auto split: js_value.splits prod.splits)
qed simp_all

lemma calls_of_exec_actions:
  "n \<noteq> OnMessage \<Longrightarrow> n \<noteq> OnLoad \<Longrightarrow>
   calls_of n (fst (snd (exec_actions p k as w))) = []"
proof (induction as arbitrary: w)
  case Nil
  then show ?case by simp
next
  case (Cons a as)
  obtain w' effs err where a: "exec_action p k a w = (w', effs, err)"
    by (cases "exec_action p k a w") auto
  have e: "calls_of n effs = []"
    using calls_of_exec_action [OF Cons.prems, of p k a w] a by simp
  show ?case
  proof (cases err)
    case None
    obtain w'' effs' err' where r: "exec_actions p k as w' = (w'', effs', err')"
      by (cases "exec_actions p k as w'") auto
    have "calls_of n effs' = []"
      using Cons.IH [OF Cons.prems, of w'] r by simp
    with a None r e show ?thesis by simp
  next
    case (Some x)
    with a e show ?thesis by simp
  qed
qed

lemma calls_of_window_eval:
  "n \<noteq> OnMessage \<Longrightarrow> n \<noteq> OnLoad \<Longrightarrow>
   calls_of n (fst (snd (window_eval E p rs k s w))) = []"
  by (simp add: window_eval_def calls_of_exec_actions)

lemma calls_of_beforeParse:
  "n \<noteq> OnMessage \<Longrightarrow> n \<noteq> OnLoad \<Longrightarrow> calls_of n (fst (snd (beforeParse E p w))) = []"
  by (simp add: beforeParse_def calls_of_window_eval)

lemma calls_of_new_JSDOM:
  "n \<noteq> OnMessage \<Longrightarrow> n \<noteq> OnLoad \<Longrightarrow> calls_of n (fst (new_JSDOM E p)) = []"
  by (simp add: fst_new_JSDOM calls_of_beforeParse split: option.splits)

lemma postMessage_cong:
  "onMessage p = onMessage p' \<Longrightarrow> postMessage p dw v = postMessage p' dw v"
  by (cases dw) (auto simp: postMessage_def)

lemma exec_action_cong:
  "onMessage p = onMessage p' \<Longrightarrow> exec_action p k a w = exec_action p' k a w"
  by (cases a) (simp_all add: postMessage_cong [of p p'] split: js_value.splits)

lemma exec_actions_cong:
  "onMessage p = onMessage p' \<Longrightarrow> exec_actions p k as w = exec_actions p' k as w"
  by (induction as arbitrary: w) (simp_all add: exec_action_cong [of p p'])

lemma window_eval_cong:
  "onMessage p = onMessage p' \<Longrightarrow> window_eval E p rs k s w = window_eval E p' rs k s w"
  by (simp add: window_eval_def exec_actions_cong [of p p'])

lemma demo_params_simps:
  "demo_params =
    \<lparr>onMessage = Some (HostFn 0), onLoad = Some (BackendOnLoad (Some 1)),
     onLoadStart = Some (HostFn 2), onLoadProgress = Some (HostFn 3),
     onLoadEnd = Some (HostFn 4), onNavigationStateChange = Some (HostFn 5),
     html = ''<title>Home</title>'', url = Some ''https://example.org/'',
     injectedJavaScriptBeforeContentLoaded = Some ''window.ready = true'',
     injectedJavascript = Some ''document.title = String(1)'',
     javaScriptEnabled = Some True, userAgent = None, param_loadCycleId = 0\<rparr>"
  by (simp add: demo_params_def initDOM_params_def demo_props_def demo_handlers_def)

lemma demo_href: "window_href demo_engine demo_params = Some ''https://example.org/''"
  by (simp add: window_href_def demo_params_simps demo_engine_def)

lemma demo_beforeParse:
  "beforeParse demo_engine demo_params (fresh_window ''https://example.org/'') = (demo_window [], [], None)"
  by (simp add: beforeParse_def install_bridge_def fresh_window_def demo_params_simps
        window_eval_def runScripts_option_def demo_engine_def demo_window_def)

lemma demo_new_JSDOM:
  "new_JSDOM demo_engine demo_params =
     ([], Inr ((demo_dom ''Home'' Loading)\<lparr>listeners := []\<rparr>))"
  by (simp add: new_JSDOM_def demo_href demo_beforeParse demo_dom_def)
     (simp add: demo_window_def demo_engine_def demo_params_simps runScripts_option_def)

lemma demo_initDOM:
  "initDOM demo_engine demo_params =
     (demo_start, Inr (demo_dom ''Home'' Loading))"
  apply (simp add: initDOM_def demo_new_JSDOM installed_def Let_def demo_dom_def)
  apply (simp add: demo_params_simps demo_start_def createNativeEvent_def eventBase_def demo_window_def demo_event_def)
  done

lemma demo_contentLoaded:
  "engine_DOMContentLoaded demo_engine (demo_dom ''Home'' Loading) = (demo_dom ''1'' Interactive, [])"
  apply (simp add: engine_DOMContentLoaded_def demo_dom_def dispatch_contentLoaded_installed)
  apply (simp add: contentLoaded_listener_def demo_params_simps window_eval_def demo_engine_def demo_window_def)
  done

lemma demo_initDOM_host:
  "initDOM demo_engine demo_host = (demo_start, Inr ((demo_dom ''Home'' Loading)\<lparr>env := demo_host\<rparr>))"
proof -
  have h: "window_href demo_engine demo_host = Some ''https://example.org/''"
    by (simp add: window_href_def demo_host_def demo_params_simps demo_engine_def)
  have w: "beforeParse demo_engine demo_host w = beforeParse demo_engine demo_params w" for w
    by (simp add: beforeParse_def runScripts_option_def demo_host_def
          window_eval_cong [of "demo_params\<lparr>onLoad := Some (HostFn 6)\<rparr>" demo_params])
  have "new_JSDOM demo_engine demo_host
          = ([], Inr ((demo_dom ''Home'' Loading)\<lparr>listeners := [], env := demo_host\<rparr>))"
    by (simp add: new_JSDOM_def h w demo_beforeParse demo_dom_def)
       (simp add: demo_host_def demo_params_simps demo_window_def demo_engine_def
          runScripts_option_def)
  then show ?thesis
    apply (simp add: initDOM_def installed_def Let_def demo_dom_def)
    apply (simp add: demo_host_def demo_params_simps demo_start_def createNativeEvent_def
        eventBase_def demo_window_def demo_event_def)
    done
qed

lemma engine_load_installed:
  "listeners d = installed \<Longrightarrow> ready d = Interactive \<Longrightarrow>
   engine_load E d = (d\<lparr>ready := Complete\<rparr>, load_listener (env d) (window d))"
  by (simp add: engine_load_def dispatch_load_installed)

lemma engine_load_Complete: "ready d = Complete \<Longrightarrow> engine_load E d = (d, [])"
  by (simp add: engine_load_def)

section \<open>The claims about \<open>initDOM\<close>\<close>

text \<open>
  C1. When the engine fires \<open>load\<close> for an instance that \<open>initDOM\<close> built, the backend
  dispatches progress (with progress 1), load, load end and navigation state change, in
  this order and each once, to the callbacks that were supplied; the \<open>url\<close> and \<open>title\<close> of
  the events are those of the window when the event fires, whatever they were when the
  instance was built; and the instance fires \<open>load\<close> no second time. Here \<open>d\<close> is any later
  state of the instance \<open>d0\<close> that \<open>initDOM\<close> returned: same listeners and closures, any
  window. The last two parts spell the sequence out for four functions of the host, and
  for the component, whose \<open>onLoad\<close> is its wrapper around the host's.
\<close>

theorem load_dispatch_sequence:
  assumes "initDOM E p = (effs0, Inr d0)"
    and "listeners d = listeners d0" and "env d = env d0" and "ready d = Interactive"
  shows
    "(let loadProgress =
            \<lparr>e_url = href (location (window d)), e_title = title (document (window d)),
             e_loading = None, e_navigationType = None, e_progress = Some 1, e_data = None\<rparr>;
          loadEvent =
            \<lparr>e_url = href (location (window d)), e_title = title (document (window d)),
             e_loading = None, e_navigationType = Some ''other'', e_progress = None,
             e_data = None\<rparr>
      in engine_load E d =
           (d\<lparr>ready := Complete\<rparr>,
            invoke OnLoadProgress (onLoadProgress p) (Event loadProgress)
            @ invoke OnLoad (onLoad p) (Event loadEvent)
            @ invoke OnLoadEnd (onLoadEnd p) (Event loadEvent)
            @ invoke OnNavigationStateChange (onNavigationStateChange p) (Bare loadEvent))
         \<and> engine_load E (d\<lparr>ready := Complete\<rparr>) = (d\<lparr>ready := Complete\<rparr>, [])
         \<and> (\<forall>i1 i2 i3 i4.
               onLoadProgress p = Some (HostFn i1) \<and> onLoad p = Some (HostFn i2) \<and>
               onLoadEnd p = Some (HostFn i3) \<and> onNavigationStateChange p = Some (HostFn i4) \<longrightarrow>
               snd (engine_load E d) =
                 [HostCall OnLoadProgress (Event loadProgress), HostCall OnLoad (Event loadEvent),
                  HostCall OnLoadEnd (Event loadEvent),
                  HostCall OnNavigationStateChange (Bare loadEvent)])
         \<and> (\<forall>i1 i2 i3 i4.
               onLoadProgress p = Some (HostFn i1) \<and> onLoad p = Some (BackendOnLoad (Some i2)) \<and>
               onLoadEnd p = Some (HostFn i3) \<and> onNavigationStateChange p = Some (HostFn i4) \<longrightarrow>
               snd (engine_load E d) =
                 [HostCall OnLoadProgress (Event loadProgress), SetBackendState loaded,
                  HostCall OnLoad (Event loadEvent), HostCall OnLoadEnd (Event loadEvent),
                  HostCall OnNavigationStateChange (Bare loadEvent)]))"
proof -
  have l: "listeners d = installed" and e: "env d = p"
    using assms initDOM_Inr(1,2) [OF assms(1)] by simp_all
  have "engine_load E d = (d\<lparr>ready := Complete\<rparr>, load_listener p (window d))"
    using engine_load_installed [OF l assms(4)] e by simp
  moreover have "engine_load E (d\<lparr>ready := Complete\<rparr>) = (d\<lparr>ready := Complete\<rparr>, [])"
    by (simp add: engine_load_Complete)
  ultimately show ?thesis
    by (simp add: load_listener_def Let_def createNativeEvent_def eventBase_def)
qed

theorem load_dispatch_sequence_witness:
  "initDOM demo_engine demo_params = (demo_start, Inr (demo_dom ''Home'' Loading))
   \<and> engine_DOMContentLoaded demo_engine (demo_dom ''Home'' Loading) = (demo_dom ''1'' Interactive, [])
   \<and> engine_load demo_engine (demo_dom ''1'' Interactive) =
       (demo_dom ''1'' Complete,
        [HostCall OnLoadProgress (Event ((demo_event ''1'')\<lparr>e_progress := Some 1\<rparr>)),
         SetBackendState loaded,
         HostCall OnLoad (Event ((demo_event ''1'')\<lparr>e_navigationType := Some ''other''\<rparr>)),
         HostCall OnLoadEnd (Event ((demo_event ''1'')\<lparr>e_navigationType := Some ''other''\<rparr>)),
         HostCall OnNavigationStateChange (Bare ((demo_event ''1'')\<lparr>e_navigationType := Some ''other''\<rparr>))])
   \<and> engine_load demo_engine (demo_dom ''1'' Complete) = (demo_dom ''1'' Complete, [])
   \<and> initDOM demo_engine demo_host = (demo_start, Inr ((demo_dom ''Home'' Loading)\<lparr>env := demo_host\<rparr>))
   \<and> snd (engine_load demo_engine ((demo_dom ''1'' Interactive)\<lparr>env := demo_host\<rparr>)) =
        [HostCall OnLoadProgress (Event ((demo_event ''1'')\<lparr>e_progress := Some 1\<rparr>)),
         HostCall OnLoad (Event ((demo_event ''1'')\<lparr>e_navigationType := Some ''other''\<rparr>)),
         HostCall OnLoadEnd (Event ((demo_event ''1'')\<lparr>e_navigationType := Some ''other''\<rparr>)),
         HostCall OnNavigationStateChange (Bare ((demo_event ''1'')\<lparr>e_navigationType := Some ''other''\<rparr>))]"
proof -
  have a: "listeners (demo_dom ''1'' Interactive) = listeners (demo_dom ''Home'' Loading)"
    and b: "env (demo_dom ''1'' Interactive) = env (demo_dom ''Home'' Loading)"
    and c: "ready (demo_dom ''1'' Interactive) = Interactive"
    by (simp_all add: demo_dom_def)
  have 1: "engine_load demo_engine (demo_dom ''1'' Interactive) =
       (demo_dom ''1'' Complete,
        [HostCall OnLoadProgress (Event ((demo_event ''1'')\<lparr>e_progress := Some 1\<rparr>)),
         SetBackendState loaded,
         HostCall OnLoad (Event ((demo_event ''1'')\<lparr>e_navigationType := Some ''other''\<rparr>)),
         HostCall OnLoadEnd (Event ((demo_event ''1'')\<lparr>e_navigationType := Some ''other''\<rparr>)),
         HostCall OnNavigationStateChange (Bare ((demo_event ''1'')\<lparr>e_navigationType := Some ''other''\<rparr>))])
   \<and> engine_load demo_engine (demo_dom ''1'' Complete) = (demo_dom ''1'' Complete, [])"
    using load_dispatch_sequence [OF demo_initDOM a b c]
    by (simp add: Let_def demo_params_simps demo_dom_def demo_window_def demo_event_def)
  let ?d = "(demo_dom ''1'' Interactive)\<lparr>env := demo_host\<rparr>"
  have a': "listeners ?d = listeners ((demo_dom ''Home'' Loading)\<lparr>env := demo_host\<rparr>)"
    and b': "env ?d = env ((demo_dom ''Home'' Loading)\<lparr>env := demo_host\<rparr>)"
    and c': "ready ?d = Interactive"
    by (simp_all add: demo_dom_def)
  have 2: "snd (engine_load demo_engine ?d) =
        [HostCall OnLoadProgress (Event ((demo_event ''1'')\<lparr>e_progress := Some 1\<rparr>)),
         HostCall OnLoad (Event ((demo_event ''1'')\<lparr>e_navigationType := Some ''other''\<rparr>)),
         HostCall OnLoadEnd (Event ((demo_event ''1'')\<lparr>e_navigationType := Some ''other''\<rparr>)),
         HostCall OnNavigationStateChange (Bare ((demo_event ''1'')\<lparr>e_navigationType := Some ''other''\<rparr>))]"
    using load_dispatch_sequence [OF demo_initDOM_host a' b' c']
    by (simp add: Let_def demo_host_def demo_params_simps demo_dom_def demo_window_def demo_event_def)
  show ?thesis
    using 1 2 by (simp add: demo_initDOM demo_contentLoaded demo_initDOM_host)
qed

lemma initDOM_returns:
  "\<not> isl (snd (new_JSDOM E p)) \<Longrightarrow> \<exists>d. snd (initDOM E p) = Inr d"
  by (auto simp: initDOM_def Let_def split: prod.splits sum.splits)

lemma initDOM_raises:
  "snd (new_JSDOM E p) = Inl e \<Longrightarrow> initDOM E p = (fst (new_JSDOM E p), Inl e)"
  by (auto simp: initDOM_def Let_def split: prod.splits sum.splits)

lemma new_JSDOM_isl:
  "isl (snd (new_JSDOM E p)) =
     (case window_href E p of
        None \<Rightarrow> True
      | Some h \<Rightarrow> snd (snd (beforeParse E p (fresh_window h))) \<noteq> None)"
  by (auto simp: new_JSDOM_def split: prod.splits option.splits)

lemma initDOM_isl: "isl (snd (initDOM E p)) = isl (snd (new_JSDOM E p))"
  by (auto simp: initDOM_def Let_def split: prod.splits sum.splits)

text \<open>
  C2. Every construction of a DOM instance in which \<open>new JSDOM\<close> returns makes \<open>initDOM\<close>
  return the instance, and by then \<open>onLoadStart\<close> and \<open>onNavigationStateChange\<close> have each
  been called exactly once, in this order and as the last two things \<open>initDOM\<close> does,
  with an event whose \<open>loading\<close> is \<open>true\<close>; the instance is returned in the state where
  the engine has fired neither \<open>DOMContentLoaded\<close> nor \<open>load\<close>, and no progress or
  load-end callback has been called. (\<open>new JSDOM\<close> raises, before any of this, for a
  \<open>url\<close> that is no URL and for an exception of \<open>beforeParse\<close>: then no instance is
  constructed.)
\<close>

theorem start_dispatch_once:
  assumes "\<not> isl (snd (new_JSDOM E p))"
  shows
    "\<exists>d. snd (initDOM E p) = Inr d \<and>
       (let effs = fst (initDOM E p);
            startEvent =
              \<lparr>e_url = href (location (window d)), e_title = title (document (window d)),
               e_loading = Some True, e_navigationType = Some ''other'', e_progress = None,
               e_data = None\<rparr>
        in ready d = Loading
           \<and> calls_of OnLoadProgress effs = [] \<and> calls_of OnLoadEnd effs = []
           \<and> (\<forall>i. onLoadStart p = Some (HostFn i) \<longrightarrow>
                 calls_of OnLoadStart effs = [Event startEvent])
           \<and> (\<forall>j. onNavigationStateChange p = Some (HostFn j) \<longrightarrow>
                 calls_of OnNavigationStateChange effs = [Bare startEvent])
           \<and> (\<forall>i j. onLoadStart p = Some (HostFn i) \<and> onNavigationStateChange p = Some (HostFn j) \<longrightarrow>
                 effs = fst (new_JSDOM E p)
                   @ [HostCall OnLoadStart (Event startEvent),
                      HostCall OnNavigationStateChange (Bare startEvent)]))"
proof -
  obtain d where r: "snd (initDOM E p) = Inr d"
    using initDOM_returns [OF assms] by blast
  define effs where "effs = fst (initDOM E p)"
  have i: "initDOM E p = (effs, Inr d)"
    using r by (simp add: effs_def prod_eq_iff)
  let ?s = "(eventBase (window d))\<lparr>e_loading := Some True, e_navigationType := Some ''other''\<rparr>"
  obtain pre where n: "new_JSDOM E p = (pre, Inr (d\<lparr>listeners := []\<rparr>))"
    and e: "effs = pre @ invoke OnLoadStart (onLoadStart p) (Event ?s)
                 @ invoke OnNavigationStateChange (onNavigationStateChange p) (Bare ?s)"
    using initDOM_Inr(4) [OF i] by blast
  have pre: "pre = fst (new_JSDOM E p)"
    using n by simp
  have c: "calls_of OnLoadProgress pre = []" "calls_of OnLoadEnd pre = []"
    "calls_of OnLoadStart pre = []" "calls_of OnNavigationStateChange pre = []"
    unfolding pre by (simp_all add: calls_of_new_JSDOM)
  have s: "?s = \<lparr>e_url = href (location (window d)), e_title = title (document (window d)),
             e_loading = Some True, e_navigationType = Some ''other'', e_progress = None,
             e_data = None\<rparr>"
    by (simp add: eventBase_def)
  have "ready d = Loading
     \<and> calls_of OnLoadProgress effs = [] \<and> calls_of OnLoadEnd effs = []
     \<and> (\<forall>i. onLoadStart p = Some (HostFn i) \<longrightarrow> calls_of OnLoadStart effs = [Event ?s])
     \<and> (\<forall>j. onNavigationStateChange p = Some (HostFn j) \<longrightarrow>
           calls_of OnNavigationStateChange effs = [Bare ?s])
     \<and> (\<forall>i j. onLoadStart p = Some (HostFn i) \<and> onNavigationStateChange p = Some (HostFn j) \<longrightarrow>
           effs = fst (new_JSDOM E p)
             @ [HostCall OnLoadStart (Event ?s), HostCall OnNavigationStateChange (Bare ?s)])"
    using initDOM_Inr(3) [OF i] c
    by (auto simp: e calls_of_invoke_other pre)
  then show ?thesis
    using r unfolding Let_def s effs_def by blast
qed

theorem start_dispatch_once_witness:
  "\<not> isl (snd (new_JSDOM demo_engine demo_params))
   \<and> initDOM demo_engine demo_params = (demo_start, Inr (demo_dom ''Home'' Loading))
   \<and> ready (demo_dom ''Home'' Loading) = Loading
   \<and> calls_of OnLoadStart demo_start =
       [Event ((demo_event ''Home'')\<lparr>e_loading := Some True, e_navigationType := Some ''other''\<rparr>)]
   \<and> calls_of OnNavigationStateChange demo_start =
       [Bare ((demo_event ''Home'')\<lparr>e_loading := Some True, e_navigationType := Some ''other''\<rparr>)]
   \<and> calls_of OnLoadProgress demo_start = [] \<and> calls_of OnLoadEnd demo_start = []"
proof -
  have b: "\<not> isl (snd (new_JSDOM demo_engine demo_params))"
    by (simp add: demo_new_JSDOM)
  have h: "onLoadStart demo_params = Some (HostFn 2)"
    "onNavigationStateChange demo_params = Some (HostFn 5)"
    by (simp_all add: demo_params_simps)
  show ?thesis
    using start_dispatch_once [OF b] b demo_initDOM
    by (simp add: Let_def h demo_dom_def demo_window_def demo_event_def)
qed

lemma main_script_gated:
  "\<not> truthy_bool (javaScriptEnabled p) \<Longrightarrow> contentLoaded_listener E p rs w = (w, [], None)"
  by (simp add: contentLoaded_listener_def)

lemma before_script_inside:
  "truthy_bool (javaScriptEnabled p) \<Longrightarrow> injectedJavaScriptBeforeContentLoaded p = Some s \<Longrightarrow>
   s \<noteq> [] \<Longrightarrow>
   beforeParse E p w = exec_actions p False (actions_of E s) (install_bridge w)"
  by (simp add: beforeParse_def window_eval_def runScripts_option_def)

lemma before_script_outside:
  "\<not> truthy_bool (javaScriptEnabled p) \<Longrightarrow> injectedJavaScriptBeforeContentLoaded p = Some s \<Longrightarrow>
   s \<noteq> [] \<Longrightarrow>
   beforeParse E p w = (install_bridge w, [], outside_error E s)"
  by (simp add: beforeParse_def window_eval_def runScripts_option_def)

text \<open>
  C3. The first half holds: with \<open>javaScriptEnabled\<close> false the \<open>DOMContentLoaded\<close>
  listener does nothing (\<open>main_script_gated\<close>). The second half fails on the code.
  \<open>beforeParse\<close> does pass a supplied "before content loaded" script to \<open>window.eval\<close>
  whatever the flag, but line 70 builds the instance without \<open>runScripts\<close> when the flag
  is false, and then the script is not evaluated in the window (\<open>before_script_outside\<close>).
  At the input below, \<open>javaScriptEnabled\<close> false with the script \<open>window.ready = true\<close>,
  the script raises a \<open>ReferenceError\<close>, the window has no \<open>ready\<close>, and \<open>initDOM\<close> raises
  without calling anything; with the flag true the same script sets \<open>window.ready\<close>.
\<close>

theorem before_script_with_scripts_disabled:
  "javaScriptEnabled demo_off = Some False
   \<and> injectedJavaScriptBeforeContentLoaded demo_off = Some ''window.ready = true''
   \<and> beforeParse demo_engine demo_off (fresh_window ''https://example.org/'')
       = (install_bridge (fresh_window ''https://example.org/''), [],
          Some (ReferenceError ''window is not defined''))
   \<and> lookup_path (globals (install_bridge (fresh_window ''https://example.org/''))) [''ready'']
       = JUndefined
   \<and> initDOM demo_engine demo_off = ([], Inl (ReferenceError ''window is not defined''))
   \<and> javaScriptEnabled demo_params = Some True
   \<and> injectedJavaScriptBeforeContentLoaded demo_params = Some ''window.ready = true''
   \<and> beforeParse demo_engine demo_params (fresh_window ''https://example.org/'')
       = (demo_window [], [], None)
   \<and> lookup_path (globals (demo_window [])) [''ready''] = JBoolean True"
proof -
  have f: "javaScriptEnabled demo_off = Some False"
    "injectedJavaScriptBeforeContentLoaded demo_off = Some ''window.ready = true''"
    "javaScriptEnabled demo_params = Some True"
    "injectedJavaScriptBeforeContentLoaded demo_params = Some ''window.ready = true''"
    by (simp_all add: demo_off_def demo_params_simps)
  have b: "beforeParse demo_engine demo_off (fresh_window ''https://example.org/'')
       = (install_bridge (fresh_window ''https://example.org/''), [],
          Some (ReferenceError ''window is not defined''))"
    using before_script_outside [of demo_off "''window.ready = true''" demo_engine] f
    by (simp add: demo_engine_def)
  have h: "window_href demo_engine demo_off = Some ''https://example.org/''"
    by (simp add: window_href_def demo_off_def demo_params_simps demo_engine_def)
  have i: "initDOM demo_engine demo_off = ([], Inl (ReferenceError ''window is not defined''))"
    by (simp add: initDOM_def new_JSDOM_def h b)
  have l: "lookup_path (globals (install_bridge (fresh_window ''https://example.org/''))) [''ready'']
       = JUndefined"
    "lookup_path (globals (demo_window [])) [''ready''] = JBoolean True"
    by (simp_all add: install_bridge_def fresh_window_def demo_window_def)
  show ?thesis
    using f b i l demo_beforeParse by simp
qed

lemma lookup_bridge:
  "lookup_path (globals (install_bridge w)) [''postMessage''] = JPostMessage"
  "lookup_path (globals (install_bridge w)) [''ReactNativeWebView'', ''postMessage''] = JPostMessage"
  by (simp_all add: install_bridge_def)

lemma postMessage_not_string:
  "typeof v \<noteq> ''string'' \<Longrightarrow>
   postMessage p dw v = ([], Some (Error ''WebView: the argument of postMessage must be a string''))"
  by (simp add: postMessage_def)

lemma postMessage_string_constructed:
  "onMessage p = Some (HostFn i) \<Longrightarrow>
   postMessage p (Some w) (JString s) =
     ([HostCall OnMessage
         (Event \<lparr>e_url = href (location w), e_title = title (document w), e_loading = None,
                 e_navigationType = None, e_progress = None, e_data = Some (JString s)\<rparr>)],
      None)"
  by (simp add: postMessage_def createNativeEvent_def eventBase_def)

lemma postMessage_string_under_construction:
  "onMessage p \<noteq> None \<Longrightarrow>
   postMessage p None (JString s) =
     ([], Some (ReferenceError ''Cannot access dom before initialization''))"
  by (simp add: postMessage_def)

lemma postMessage_string_no_callback:
  "onMessage p = None \<Longrightarrow> postMessage p dw (JString s) = ([], None)"
  by (simp add: postMessage_def)

text \<open>
  C7. The part about an argument that is not a string holds (\<open>postMessage_not_string\<close>),
  and a string posted once \<open>new JSDOM\<close> has returned reaches \<open>onMessage\<close> with \<open>data\<close> equal
  to it (\<open>postMessage_string_constructed\<close>). A string posted while \<open>new JSDOM\<close> runs does
  not: the closure spreads \<open>eventBase\<close>, whose getters read \<open>dom\<close> before it has a value
  (\<open>postMessage_string_under_construction\<close>). At the input below the "before content
  loaded" script posts the string \<open>7\<close> through \<open>window.ReactNativeWebView.postMessage\<close>,
  which \<open>beforeParse\<close> has just stored: the call raises a \<open>ReferenceError\<close>, \<open>onMessage\<close> is
  not called and \<open>initDOM\<close> raises. The same script as the injected main script is
  delivered when \<open>DOMContentLoaded\<close> fires.
\<close>

theorem string_posted_during_construction:
  "onMessage demo_post_before = Some (HostFn 0)
   \<and> javaScriptEnabled demo_post_before = Some True
   \<and> injectedJavaScriptBeforeContentLoaded demo_post_before
       = Some ''window.ReactNativeWebView.postMessage(String(7))''
   \<and> actions_of demo_engine ''window.ReactNativeWebView.postMessage(String(7))''
       = [CallGlobal [''ReactNativeWebView'', ''postMessage''] (JString ''7'')]
   \<and> initDOM demo_engine demo_post_before
       = ([], Inl (ReferenceError ''Cannot access dom before initialization''))
   \<and> calls_of OnMessage (fst (initDOM demo_engine demo_post_before)) = []
   \<and> engine_DOMContentLoaded demo_engine ((demo_dom ''Home'' Loading)\<lparr>env := demo_post_main\<rparr>)
       = ((demo_dom ''Home'' Interactive)\<lparr>env := demo_post_main\<rparr>,
          [HostCall OnMessage (Event ((demo_event ''Home'')\<lparr>e_data := Some (JString ''7'')\<rparr>))])"
proof -
  have f: "onMessage demo_post_before = Some (HostFn 0)"
    "javaScriptEnabled demo_post_before = Some True"
    "injectedJavaScriptBeforeContentLoaded demo_post_before
       = Some ''window.ReactNativeWebView.postMessage(String(7))''"
    by (simp_all add: demo_post_before_def demo_params_simps)
  have a: "actions_of demo_engine ''window.ReactNativeWebView.postMessage(String(7))''
       = [CallGlobal [''ReactNativeWebView'', ''postMessage''] (JString ''7'')]"
    by (simp add: demo_engine_def)
  have p: "postMessage demo_post_before None (JString ''7'')
             = ([], Some (ReferenceError ''Cannot access dom before initialization''))"
    using postMessage_string_under_construction [of demo_post_before] f by simp
  have b: "beforeParse demo_engine demo_post_before (fresh_window ''https://example.org/'')
             = (install_bridge (fresh_window ''https://example.org/''), [],
                Some (ReferenceError ''Cannot access dom before initialization''))"
  proof -
    have "exec_actions demo_post_before False
            [CallGlobal [''ReactNativeWebView'', ''postMessage''] (JString ''7'')]
            (install_bridge (fresh_window ''https://example.org/''))
          = (install_bridge (fresh_window ''https://example.org/''), [],
             Some (ReferenceError ''Cannot access dom before initialization''))"
      by (simp add: lookup_bridge p del: lookup_path.simps)
    then show ?thesis
      using before_script_inside [of demo_post_before _ demo_engine] f
      by (simp add: a)
  qed
  have h: "window_href demo_engine demo_post_before = Some ''https://example.org/''"
    by (simp add: window_href_def demo_post_before_def demo_params_simps demo_engine_def)
  have i: "initDOM demo_engine demo_post_before
       = ([], Inl (ReferenceError ''Cannot access dom before initialization''))"
    by (simp add: initDOM_def new_JSDOM_def h b)
  have m: "onMessage demo_post_main = Some (HostFn 0)"
    "javaScriptEnabled demo_post_main = Some True"
    "injectedJavascript demo_post_main = Some ''window.ReactNativeWebView.postMessage(String(7))''"
    by (simp_all add: demo_post_main_def demo_params_simps)
  have l: "lookup_path (globals (demo_window ''Home'')) [''ReactNativeWebView'', ''postMessage'']
             = JPostMessage"
    by (simp add: demo_window_def)
  have c: "contentLoaded_listener demo_engine demo_post_main (Some ''dangerously'') (demo_window ''Home'')
             = (demo_window ''Home'',
                [HostCall OnMessage (Event ((demo_event ''Home'')\<lparr>e_data := Some (JString ''7'')\<rparr>))],
                None)"
    using postMessage_string_constructed [of demo_post_main 0 "demo_window ''Home''" "''7''"] m
    by (simp add: contentLoaded_listener_def window_eval_def a l)
       (simp add: demo_window_def demo_event_def)
  have d: "engine_DOMContentLoaded demo_engine ((demo_dom ''Home'' Loading)\<lparr>env := demo_post_main\<rparr>)
       = ((demo_dom ''Home'' Interactive)\<lparr>env := demo_post_main\<rparr>,
          [HostCall OnMessage (Event ((demo_event ''Home'')\<lparr>e_data := Some (JString ''7'')\<rparr>))])"
    by (simp add: engine_DOMContentLoaded_def demo_dom_def dispatch_contentLoaded_installed c)
  show ?thesis
    using f a i d by simp
qed

lemma calls_of_invoke_map_HostFn:
  "calls_of n (invoke m (map_option HostFn x) a) = (if m = n \<and> x \<noteq> None then [a] else [])"
  by (cases x) simp_all

lemma fst_initDOM:
  "fst (initDOM E p) =
     fst (new_JSDOM E p)
     @ (case snd (initDOM E p) of
          Inl e \<Rightarrow> []
        | Inr d \<Rightarrow>
            invoke OnLoadStart (onLoadStart p)
              (Event ((eventBase (window d))\<lparr>e_loading := Some True, e_navigationType := Some ''other''\<rparr>))
            @ invoke OnNavigationStateChange (onNavigationStateChange p)
                (Bare ((eventBase (window d))\<lparr>e_loading := Some True, e_navigationType := Some ''other''\<rparr>)))"
  by (auto simp: initDOM_def Let_def createNativeEvent_def split: prod.splits sum.splits)

lemma exec_action_drop_handlers:
  assumes "onMessage q = None" and "snd (snd (exec_action p k a w)) = None"
  shows "exec_action q k a w = (fst (exec_action p k a w), [], None)"
proof (cases a)
  case (CallGlobal path v)
  show ?thesis
  proof (cases "lookup_path (globals w) path = JPostMessage")
    case True
    then have "snd (postMessage p (if k then Some w else None) v) = None"
      using assms(2) CallGlobal by (simp split: prod.splits)
    then have "typeof v = ''string''"
      by (auto simp: postMessage_def split: if_splits)
    then have "postMessage q (if k then Some w else None) v = ([], None)"
      using assms(1) by (simp add: postMessage_def)
    then show ?thesis
      using True CallGlobal by (simp split: prod.splits)
  next
    case False
    then show ?thesis
      using assms(2) CallGlobal by (auto split: js_value.splits)
  qed
qed simp_all

lemma exec_actions_drop_handlers:
  assumes "onMessage q = None"
  shows "snd (snd (exec_actions p k as w)) = None \<Longrightarrow>
         exec_actions q k as w = (fst (exec_actions p k as w), [], None)"
proof (induction as arbitrary: w)
  case Nil
  show ?case by simp
next
  case (Cons a as)
  obtain w1 e1 r1 where 1: "exec_action p k a w = (w1, e1, r1)"
    by (cases "exec_action p k a w") auto
  have r1: "r1 = None"
    using Cons.prems 1 by (cases r1) auto
  have q1: "exec_action q k a w = (w1, [], None)"
    using exec_action_drop_handlers [OF assms, of p k a w] 1 r1 by simp
  obtain w2 e2 r2 where 2: "exec_actions p k as w1 = (w2, e2, r2)"
    by (cases "exec_actions p k as w1") auto
  have "r2 = None"
    using Cons.prems 1 r1 2 by simp
  then have "exec_actions q k as w1 = (w2, [], None)"
    using Cons.IH [of w1] 2 by simp
  then show ?case
    using 1 r1 2 q1 by simp
qed

lemma exec_actions_no_onMessage:
  "onMessage p = None \<Longrightarrow> fst (snd (exec_actions p k as w)) = []"
proof (induction as arbitrary: w)
  case Nil
  show ?case by simp
next
  case (Cons a as)
  obtain w1 e1 r1 where 1: "exec_action p k a w = (w1, e1, r1)"
    by (cases "exec_action p k a w") auto
  have "fst (snd (exec_action p k a w)) = []"
    using Cons.prems by (cases a) (auto simp: postMessage_def split: js_value.splits)
  then have e: "e1 = []" using 1 by simp
  obtain w2 e2 r2 where 2: "exec_actions p k as w1 = (w2, e2, r2)"
    by (cases "exec_actions p k as w1") auto
  have "e2 = []"
    using Cons.IH [OF Cons.prems, of w1] 2 by simp
  then show ?case
    using 1 2 e by (cases r1) simp_all
qed

lemma beforeParse_cong:
  assumes "onMessage p = onMessage p'"
    and "injectedJavaScriptBeforeContentLoaded p = injectedJavaScriptBeforeContentLoaded p'"
    and "javaScriptEnabled p = javaScriptEnabled p'"
  shows "beforeParse E p w = beforeParse E p' w"
  using assms window_eval_cong [OF assms(1)]
  by (simp add: beforeParse_def runScripts_option_def)

lemma beforeParse_drop_handlers:
  assumes "onMessage q = None"
    and "injectedJavaScriptBeforeContentLoaded q = injectedJavaScriptBeforeContentLoaded p"
    and "javaScriptEnabled q = javaScriptEnabled p"
    and "snd (snd (beforeParse E p w)) = None"
  shows "snd (snd (beforeParse E q w)) = None"
proof (cases "truthy_string (injectedJavaScriptBeforeContentLoaded p) \<and> truthy_bool (javaScriptEnabled p)")
  case True
  then have "snd (snd (exec_actions p False
               (actions_of E (the (injectedJavaScriptBeforeContentLoaded p))) (install_bridge w))) = None"
    using assms(4) by (simp add: beforeParse_def window_eval_def runScripts_option_def)
  from exec_actions_drop_handlers [OF assms(1) this] True assms(2,3)
  show ?thesis
    by (simp add: beforeParse_def window_eval_def runScripts_option_def)
next
  case False
  then show ?thesis
    using assms(2-4) by (auto simp: beforeParse_def window_eval_def runScripts_option_def)
qed

lemma calls_of_load_listener_params:
  "calls_of n (load_listener (initDOM_params pr k) w) =
     (if n = OnLoadProgress \<and> onLoadProgress (domHandlers pr) \<noteq> None
      then [Event ((eventBase w)\<lparr>e_progress := Some 1\<rparr>)] else [])
     @ (if n = OnLoad \<and> onLoad (domHandlers pr) \<noteq> None
        then [Event ((eventBase w)\<lparr>e_navigationType := Some ''other''\<rparr>)] else [])
     @ (if n = OnLoadEnd \<and> onLoadEnd (domHandlers pr) \<noteq> None
        then [Event ((eventBase w)\<lparr>e_navigationType := Some ''other''\<rparr>)] else [])
     @ (if n = OnNavigationStateChange \<and> onNavigationStateChange (domHandlers pr) \<noteq> None
        then [Bare ((eventBase w)\<lparr>e_navigationType := Some ''other''\<rparr>)] else [])"
  by (cases "onLoad (domHandlers pr)")
     (auto simp: load_listener_def initDOM_params_def Let_def createNativeEvent_def
        calls_of_invoke_map_HostFn)

lemma calls_of_initDOM_params:
  "n = OnLoadStart \<or> n = OnNavigationStateChange \<Longrightarrow>
   (if n = OnLoadStart then onLoadStart (domHandlers pr) else onNavigationStateChange (domHandlers pr)) = None \<Longrightarrow>
   calls_of n (fst (initDOM E (initDOM_params pr k))) = []"
  by (subst fst_initDOM)
     (auto simp: calls_of_new_JSDOM calls_of_invoke_other initDOM_params_def
        calls_of_invoke_map_HostFn split: sum.splits)

text \<open>
  C8. In the component, a callback that the host did not supply is never called, at
  any of the six places: load start and navigation state change in \<open>initDOM\<close>,
  progress, load, load end and navigation state change in the \<open>load\<close> listener, and
  message in \<open>postMessage\<close>, where a string posted with no \<open>onMessage\<close> raises nothing,
  also while \<open>new JSDOM\<close> runs. With no callback at all, \<open>initDOM\<close> calls nothing and the
  \<open>load\<close> listener only sets the component's state. A missing callback never makes
  \<open>initDOM\<close> raise: where it returns with the callbacks of the host, it returns without
  them.
\<close>

theorem missing_callbacks_are_skipped:
  "(onLoadStart (domHandlers pr) = None \<longrightarrow>
      calls_of OnLoadStart (fst (initDOM E (initDOM_params pr k))) = [])
   \<and> (onNavigationStateChange (domHandlers pr) = None \<longrightarrow>
        calls_of OnNavigationStateChange (fst (initDOM E (initDOM_params pr k))) = []
        \<and> calls_of OnNavigationStateChange (load_listener (initDOM_params pr k) w) = [])
   \<and> (onLoadProgress (domHandlers pr) = None \<longrightarrow>
        calls_of OnLoadProgress (load_listener (initDOM_params pr k) w) = [])
   \<and> (onLoad (domHandlers pr) = None \<longrightarrow>
        calls_of OnLoad (load_listener (initDOM_params pr k) w) = [])
   \<and> (onLoadEnd (domHandlers pr) = None \<longrightarrow>
        calls_of OnLoadEnd (load_listener (initDOM_params pr k) w) = [])
   \<and> (onMessage (domHandlers pr) = None \<longrightarrow>
        postMessage (initDOM_params pr k) dw (JString s) = ([], None))
   \<and> (domHandlers pr = no_handlers \<longrightarrow>
        fst (initDOM E (initDOM_params pr k)) = []
        \<and> load_listener (initDOM_params pr k) w = [SetBackendState loaded])
   \<and> (\<not> isl (snd (initDOM E (initDOM_params pr k))) \<longrightarrow>
        \<not> isl (snd (initDOM E (initDOM_params (pr\<lparr>domHandlers := no_handlers\<rparr>) k))))"
proof -
  let ?p = "initDOM_params pr k"
  have 1: "onLoadStart (domHandlers pr) = None \<Longrightarrow> calls_of OnLoadStart (fst (initDOM E ?p)) = []"
    using calls_of_initDOM_params [of OnLoadStart pr E k] by simp
  have 2: "onNavigationStateChange (domHandlers pr) = None \<Longrightarrow>
           calls_of OnNavigationStateChange (fst (initDOM E ?p)) = []"
    using calls_of_initDOM_params [of OnNavigationStateChange pr E k] by simp
  have 3: "onMessage (domHandlers pr) = None \<Longrightarrow> postMessage ?p dw (JString s) = ([], None)"
    by (simp add: postMessage_def initDOM_params_def)
  have 4: "fst (initDOM E ?p) = []" "load_listener ?p w = [SetBackendState loaded]"
    if n: "domHandlers pr = no_handlers"
  proof -
    have m: "onMessage ?p = None" "onLoadStart ?p = None" "onNavigationStateChange ?p = None"
      "onLoadProgress ?p = None" "onLoadEnd ?p = None" "onLoad ?p = Some (BackendOnLoad None)"
      using n by (simp_all add: initDOM_params_def no_handlers_def)
    have "fst (snd (beforeParse E ?p w')) = []" for w'
      using exec_actions_no_onMessage [OF m(1)] by (simp add: beforeParse_def window_eval_def)
    then have "fst (new_JSDOM E ?p) = []"
      by (simp add: fst_new_JSDOM split: option.splits)
    then show "fst (initDOM E ?p) = []"
      by (subst fst_initDOM) (simp add: m split: sum.splits)
    show "load_listener ?p w = [SetBackendState loaded]"
      by (simp add: load_listener_def m Let_def)
  qed
  have 5: "\<not> isl (snd (initDOM E (initDOM_params (pr\<lparr>domHandlers := no_handlers\<rparr>) k)))"
    if r: "\<not> isl (snd (initDOM E ?p))"
  proof -
    let ?q = "initDOM_params (pr\<lparr>domHandlers := no_handlers\<rparr>) k"
    have h: "window_href E ?q = window_href E ?p"
      by (simp add: window_href_def initDOM_params_def)
    have "snd (snd (beforeParse E ?q w')) = None" if "snd (snd (beforeParse E ?p w')) = None" for w'
      by (rule beforeParse_drop_handlers [OF _ _ _ that])
         (simp_all add: initDOM_params_def no_handlers_def)
    then show ?thesis
      using r h by (auto simp: initDOM_isl new_JSDOM_isl split: option.splits)
  qed
  show ?thesis
    using 1 2 3 4 5 by (simp add: calls_of_load_listener_params)
qed

theorem missing_callbacks_are_skipped_witness:
  "domHandlers demo_bare = no_handlers
   \<and> onLoadStart (domHandlers demo_bare) = None \<and> onLoadProgress (domHandlers demo_bare) = None
   \<and> onLoad (domHandlers demo_bare) = None \<and> onLoadEnd (domHandlers demo_bare) = None
   \<and> onNavigationStateChange (domHandlers demo_bare) = None \<and> onMessage (domHandlers demo_bare) = None
   \<and> fst (initDOM demo_engine (initDOM_params demo_bare 0)) = []
   \<and> load_listener (initDOM_params demo_bare 0) (demo_window ''Home'') = [SetBackendState loaded]
   \<and> postMessage (initDOM_params demo_bare 0) None (JString ''hello'') = ([], None)
   \<and> \<not> isl (snd (initDOM demo_engine (initDOM_params demo_props 0)))
   \<and> \<not> isl (snd (initDOM demo_engine (initDOM_params demo_bare 0)))"
proof -
  have h: "domHandlers demo_bare = no_handlers"
    by (simp add: demo_bare_def)
  have n: "onLoadStart no_handlers = None" "onLoadProgress no_handlers = None"
    "onLoad no_handlers = None" "onLoadEnd no_handlers = None"
    "onNavigationStateChange no_handlers = None" "onMessage no_handlers = None"
    by (simp_all add: no_handlers_def)
  have i: "\<not> isl (snd (initDOM demo_engine (initDOM_params demo_props 0)))"
    using demo_initDOM by (simp add: demo_params_def)
  have b: "demo_props\<lparr>domHandlers := no_handlers\<rparr> = demo_bare"
    by (simp add: demo_bare_def)
  note t = missing_callbacks_are_skipped
      [where pr = demo_bare and E = demo_engine and k = 0 and w = "demo_window ''Home''"
         and s = "''hello''" and dw = None]
  note u = missing_callbacks_are_skipped
      [where pr = demo_props and E = demo_engine and k = 0 and w = "demo_window ''Home''"
         and s = "''hello''" and dw = None]
  have j: "\<not> isl (snd (initDOM demo_engine (initDOM_params demo_bare 0)))"
    using u i unfolding b by simp
  show ?thesis
    using t h n i j by simp
qed

section \<open>The claims about the component\<close>

lemma apply_effect_frame:
  "heap (apply_effect e c) = heap c" "loadCycleId (apply_effect e c) = loadCycleId c"
  "props (apply_effect e c) = props c" "memo (apply_effect e c) = memo c"
  "ref_current (apply_effect e c) = ref_current c" "trace (apply_effect e c) = trace c @ [e]"
  by (cases e, simp_all)+

lemma apply_effects_Nil [simp]: "apply_effects [] c = c"
  by (simp add: apply_effects_def)

lemma apply_effects_Cons [simp]: "apply_effects (e # effs) c = apply_effects effs (apply_effect e c)"
  by (simp add: apply_effects_def)

lemma apply_effects_frame:
  "heap (apply_effects effs c) = heap c \<and> loadCycleId (apply_effects effs c) = loadCycleId c
   \<and> props (apply_effects effs c) = props c \<and> memo (apply_effects effs c) = memo c
   \<and> ref_current (apply_effects effs c) = ref_current c
   \<and> trace (apply_effects effs c) = trace c @ effs"
  by (induction effs arbitrary: c) (simp_all add: apply_effect_frame)

lemma backendState_unchanged:
  "\<forall>s. SetBackendState s \<notin> set effs \<Longrightarrow> backendState (apply_effects effs c) = backendState c"
proof (induction effs arbitrary: c)
  case Nil
  show ?case by simp
next
  case (Cons e effs)
  have "backendState (apply_effect e c) = backendState c"
    using Cons.prems by (cases e) auto
  then show ?case
    using Cons by simp
qed

lemma backendState_stays_loaded:
  "SetBackendState loading \<notin> set effs \<Longrightarrow> backendState c = loaded \<Longrightarrow>
   backendState (apply_effects effs c) = loaded"
proof (induction effs arbitrary: c)
  case Nil
  then show ?case by simp
next
  case (Cons e effs)
  have "backendState (apply_effect e c) = loaded"
  proof (cases e)
    case (SetBackendState s)
    with Cons.prems show ?thesis by (cases s) auto
  qed (use Cons.prems in auto)
  then show ?case
    using Cons by simp
qed

lemma backendState_becomes_loaded:
  "SetBackendState loading \<notin> set effs \<Longrightarrow> SetBackendState loaded \<in> set effs \<Longrightarrow>
   backendState (apply_effects effs c) = loaded"
proof (induction effs arbitrary: c)
  case Nil
  then show ?case by simp
next
  case (Cons e effs)
  show ?case
  proof (cases "e = SetBackendState loaded")
    case True
    have "backendState (apply_effect e c) = loaded"
      using True by simp
    then show ?thesis
      using Cons.prems backendState_stays_loaded [of effs "apply_effect e c"] by simp
  next
    case False
    then show ?thesis
      using Cons by simp
  qed
qed

lemma invoke_no_loading: "SetBackendState loading \<notin> set (invoke n cb a)"
  by (cases "(n, cb, a)" rule: invoke.cases) (auto split: option.splits)

lemma invoke_host_no_state: "host_callback cb \<Longrightarrow> SetBackendState s \<notin> set (invoke n cb a)"
  by (cases "(n, cb, a)" rule: invoke.cases) auto

lemma exec_action_effects:
  "set (fst (snd (exec_action p k a w))) \<subseteq> (\<Union>x. set (invoke OnMessage (onMessage p) x))"
  by (cases a) (auto simp: postMessage_def split: js_value.splits sum.splits)

lemma exec_actions_effects:
  "set (fst (snd (exec_actions p k as w))) \<subseteq> (\<Union>x. set (invoke OnMessage (onMessage p) x))"
proof (induction as arbitrary: w)
  case Nil
  show ?case by simp
next
  case (Cons a as)
  obtain w1 e1 r1 where 1: "exec_action p k a w = (w1, e1, r1)"
    by (cases "exec_action p k a w") auto
  obtain w2 e2 r2 where 2: "exec_actions p k as w1 = (w2, e2, r2)"
    by (cases "exec_actions p k as w1") auto
  have "set e1 \<subseteq> (\<Union>x. set (invoke OnMessage (onMessage p) x))"
    using exec_action_effects [of p k a w] 1 by simp
  moreover have "set e2 \<subseteq> (\<Union>x. set (invoke OnMessage (onMessage p) x))"
    using Cons.IH [of w1] 2 by simp
  ultimately show ?case
    using 1 2 by (cases r1) auto
qed

lemma window_eval_no_loading:
  "SetBackendState loading \<notin> set (fst (snd (window_eval E p rs k s w)))"
  using exec_actions_effects [of p k "actions_of E s" w] invoke_no_loading
  by (auto simp: window_eval_def)

lemma window_eval_host_no_state:
  "host_callback (onMessage p) \<Longrightarrow> SetBackendState st \<notin> set (fst (snd (window_eval E p rs k s w)))"
  using exec_actions_effects [of p k "actions_of E s" w] invoke_host_no_state
  by (auto simp: window_eval_def)

lemma load_listener_no_loading: "SetBackendState loading \<notin> set (load_listener p w)"
  by (simp add: load_listener_def Let_def invoke_no_loading)

lemma contentLoaded_no_loading:
  "SetBackendState loading \<notin> set (fst (snd (contentLoaded_listener E p rs w)))"
  by (simp add: contentLoaded_listener_def window_eval_no_loading)

lemma contentLoaded_host_no_state:
  "host_callback (onMessage p) \<Longrightarrow>
   SetBackendState st \<notin> set (fst (snd (contentLoaded_listener E p rs w)))"
  by (simp add: contentLoaded_listener_def window_eval_host_no_state)

lemma engine_DOMContentLoaded_built:
  assumes "built d"
  shows "built (fst (engine_DOMContentLoaded E d))"
    and "SetBackendState st \<notin> set (snd (engine_DOMContentLoaded E d))"
proof -
  obtain w effs err
    where c: "contentLoaded_listener E (env d) (runScripts d) (window d) = (w, effs, err)"
    by (cases "contentLoaded_listener E (env d) (runScripts d) (window d)") auto
  have l: "listeners (d\<lparr>ready := Interactive\<rparr>) = installed"
    using assms by (simp add: built_def)
  have n: "SetBackendState st \<notin> set effs"
    using contentLoaded_host_no_state [of "env d" st E "runScripts d" "window d"] assms c
    by (simp add: built_def)
  show "built (fst (engine_DOMContentLoaded E d))"
    using assms c dispatch_contentLoaded_installed [OF l, of E]
    by (cases err) (auto simp: engine_DOMContentLoaded_def built_def)
  show "SetBackendState st \<notin> set (snd (engine_DOMContentLoaded E d))"
    using assms c n dispatch_contentLoaded_installed [OF l, of E]
    by (cases err) (auto simp: engine_DOMContentLoaded_def)
qed

lemma engine_load_built:
  assumes "built d"
  shows "built (fst (engine_load E d))"
    and "SetBackendState loading \<notin> set (snd (engine_load E d))"
    and "ready d = Interactive \<Longrightarrow> SetBackendState loaded \<in> set (snd (engine_load E d))"
    and "ready d \<noteq> Interactive \<Longrightarrow> snd (engine_load E d) = []"
proof -
  have l: "listeners (d\<lparr>ready := Complete\<rparr>) = installed"
    using assms by (simp add: built_def)
  show "built (fst (engine_load E d))"
    using assms dispatch_load_installed [OF l, of E]
    by (auto simp: engine_load_def built_def)
  show "SetBackendState loading \<notin> set (snd (engine_load E d))"
    using dispatch_load_installed [OF l, of E]
    by (auto simp: engine_load_def load_listener_no_loading)
  show "SetBackendState loaded \<in> set (snd (engine_load E d))" if "ready d = Interactive"
  proof -
    obtain u where "onLoad (env d) = Some (BackendOnLoad u)"
      using assms by (cases "(onLoad (env d))" rule: host_callback.cases) (auto simp: built_def)
    then show ?thesis
      using that dispatch_load_installed [OF l, of E]
      by (auto simp: engine_load_def load_listener_def Let_def)
  qed
  show "snd (engine_load E d) = []" if "ready d \<noteq> Interactive"
    using that by (simp add: engine_load_def)
qed

lemma initDOM_params_host:
  "host_callback (onMessage (initDOM_params pr n))"
  "host_callback (onLoadStart (initDOM_params pr n))"
  "host_callback (onNavigationStateChange (initDOM_params pr n))"
  "\<not> host_callback (onLoad (initDOM_params pr n))"
  by (simp_all add: initDOM_params_def, (cases "onMessage (domHandlers pr)"; simp),
      (cases "onLoadStart (domHandlers pr)"; simp),
      (cases "onNavigationStateChange (domHandlers pr)"; simp))

lemma initDOM_params_no_state:
  "SetBackendState st \<notin> set (fst (initDOM E (initDOM_params pr n)))"
proof -
  let ?p = "initDOM_params pr n"
  have "SetBackendState st \<notin> set (fst (snd (beforeParse E ?p w)))" for w
    using window_eval_host_no_state [OF initDOM_params_host(1)]
    by (simp add: beforeParse_def)
  then have "SetBackendState st \<notin> set (fst (new_JSDOM E ?p))"
    by (simp add: fst_new_JSDOM split: option.splits)
  then show ?thesis
    by (subst fst_initDOM)
       (auto simp: invoke_host_no_state initDOM_params_host split: sum.splits)
qed

lemma initDOM_built:
  "initDOM E (initDOM_params pr n) = (effs, Inr d) \<Longrightarrow> built d"
  using initDOM_Inr(1,2,5) [of E "initDOM_params pr n" effs d]
  by (simp add: built_def initDOM_params_host)

lemma render_miss:
  assumes "memo c = None \<or> (\<exists>deps a. memo c = Some (deps, a) \<and> deps \<noteq> initDOM_params (props c) (loadCycleId c))"
    and "initDOM E (initDOM_params (props c) (loadCycleId c)) = (effs, Inr d)"
  shows "render E c =
           Inr (c\<lparr>heap := heap c @ [d],
                  memo := Some (initDOM_params (props c) (loadCycleId c), length (heap c)),
                  trace := trace c @ effs,
                  ref_current := Some \<lparr>h_dom = length (heap c), h_loadCycleId = loadCycleId c,
                                       h_backendState = backendState c\<rparr>\<rparr>)"
proof -
  let ?c0 = "c\<lparr>heap := heap c @ [d], memo := Some (initDOM_params (props c) (loadCycleId c), length (heap c))\<rparr>"
  have n: "\<forall>s. SetBackendState s \<notin> set effs"
    using initDOM_params_no_state [of _ E "props c" "loadCycleId c"] assms(2) by simp
  have "apply_effects effs ?c0 = ?c0\<lparr>trace := trace c @ effs\<rparr>"
    using apply_effects_frame [of effs ?c0] backendState_unchanged [OF n, of ?c0]
    by (intro component.equality) simp_all
  then show ?thesis
    using assms by (auto simp: render_def Let_def)
qed

lemma render_hit:
  assumes "memo c = Some (initDOM_params (props c) (loadCycleId c), a)"
  shows "render E c =
           Inr (c\<lparr>ref_current := Some \<lparr>h_dom = a, h_loadCycleId = loadCycleId c,
                                       h_backendState = backendState c\<rparr>\<rparr>)"
  using assms by (simp add: render_def Let_def)

lemma render_Inl:
  "render E c = Inl e \<Longrightarrow> isl (snd (initDOM E (initDOM_params (props c) (loadCycleId c))))"
  by (auto simp: render_def Let_def split: option.splits prod.splits sum.splits if_splits)

lemma render_synced:
  assumes "staged E c" and "render E c = Inr c'"
  shows "synced E c'"
proof -
  let ?p = "initDOM_params (props c) (loadCycleId c)"
  show ?thesis
  proof (cases "\<exists>a. memo c = Some (?p, a)")
    case True
    then obtain a where m: "memo c = Some (?p, a)" by blast
    have "c' = c\<lparr>ref_current := Some \<lparr>h_dom = a, h_loadCycleId = loadCycleId c,
                                       h_backendState = backendState c\<rparr>\<rparr>"
      using render_hit [OF m, of E] assms(2) by simp
    then show ?thesis
      using assms(1) m by (simp add: synced_def staged_def)
  next
    case False
    then have miss: "memo c = None \<or> (\<exists>deps a. memo c = Some (deps, a) \<and> deps \<noteq> ?p)"
      by (cases "memo c") auto
    obtain effs r where i: "initDOM E ?p = (effs, r)"
      by (cases "initDOM E ?p") auto
    have "\<not> isl r"
      using assms(2) miss i
      by (auto simp: render_def Let_def split: option.splits sum.splits if_splits)
    then obtain d where r: "r = Inr d" by (cases r) auto
    have c': "c' = c\<lparr>heap := heap c @ [d], memo := Some (?p, length (heap c)),
                     trace := trace c @ effs,
                     ref_current := Some \<lparr>h_dom = length (heap c), h_loadCycleId = loadCycleId c,
                                       h_backendState = backendState c\<rparr>\<rparr>"
      using render_miss [OF miss, of E effs d] i r assms(2) by simp
    have "built d"
      using initDOM_built i r by blast
    then show ?thesis
      using assms(1) i r by (simp add: c' synced_def staged_def)
  qed
qed

lemma mount_synced: "mount E pr = Inr c \<Longrightarrow> synced E c"
  by (rule render_synced [of E _ c]) (simp_all add: mount_def staged_def)

lemma synced_staged: "synced E c \<Longrightarrow> staged E c"
  by (simp add: synced_def staged_def)

lemma staged_trace: "staged E c \<Longrightarrow> staged E (c\<lparr>trace := t\<rparr>)"
  by (simp add: staged_def)

lemma staged_apply_effects: "staged E c \<Longrightarrow> staged E (apply_effects effs c)"
  using apply_effects_frame [of effs c] by (simp add: staged_def)

lemma staged_heap_update:
  "staged E c \<Longrightarrow> built d \<Longrightarrow> staged E (c\<lparr>heap := (heap c)[a := d]\<rparr>)"
proof -
  assume s: "staged E c" and b: "built d"
  have "staged_memo E m ((heap c)[a := d])" if "staged_memo E m (heap c)" for m
    using that by (cases "(E, m, heap c)" rule: staged_memo.cases) auto
  moreover have "list_all built ((heap c)[a := d])"
    using s b by (auto simp: staged_def list_all_iff dest: set_update_subset_insert [THEN subsetD])
  ultimately show ?thesis
    using s by (simp add: staged_def)
qed

lemma built_nth: "list_all built hp \<Longrightarrow> a < length hp \<Longrightarrow> built (hp ! a)"
  by (simp add: list_all_length)

lemma engine_event_staged:
  assumes "staged E c" and "\<And>d. built d \<Longrightarrow> built (fst (f d))"
  shows "staged E (engine_event f a c)"
proof (cases "a < length (heap c)")
  case True
  obtain d effs where f: "f (heap c ! a) = (d, effs)"
    by (cases "f (heap c ! a)") auto
  have "built (heap c ! a)"
    using assms(1) True by (simp add: staged_def built_nth)
  then have "built d"
    using assms(2) [of "heap c ! a"] f by simp
  then show ?thesis
    using True f assms(1)
    by (simp add: engine_event_def staged_apply_effects staged_heap_update)
next
  case False
  then show ?thesis
    using assms(1) by (simp add: engine_event_def)
qed

lemma injectJavascript_staged:
  assumes "staged E c"
  shows "staged E (fst (injectJavascript E h s c))"
proof (cases "h_backendState h = loaded \<and> h_dom h < length (heap c)")
  case True
  let ?d = "heap c ! h_dom h"
  obtain w effs err
    where e: "window_eval E (env ?d) (runScripts ?d) True s (window ?d) = (w, effs, err)"
    by (cases "window_eval E (env ?d) (runScripts ?d) True s (window ?d)") auto
  have "built ?d"
    using assms True by (simp add: staged_def built_nth)
  then have "built (?d\<lparr>window := w\<rparr>)"
    by (simp add: built_def)
  then show ?thesis
    using True e assms
    by (simp add: injectJavascript_def Let_def staged_apply_effects staged_heap_update)
next
  case False
  then show ?thesis
    using assms by (auto simp: injectJavascript_def)
qed

lemma act_staged:
  assumes "synced E c"
  shows "staged E (act E a c)"
proof -
  have s: "staged E c"
    using assms by (rule synced_staged)
  obtain h where h: "ref_current c = Some h"
    using assms by (simp add: synced_def)
  show ?thesis
  proof (cases a)
    case Reload
    then show ?thesis
      using s h by (simp add: via_ref_def reload_def staged_def)
  next
    case StopLoading
    then show ?thesis
      using s h by (simp add: via_ref_def stopLoading_def staged_def)
  next
    case GoBack
    then show ?thesis
      using s h by (simp add: via_ref_def goBack_def staged_def)
  next
    case GoForward
    then show ?thesis
      using s h by (simp add: via_ref_def goForward_def staged_def)
  next
    case (InjectJavascript x)
    obtain c' err where i: "injectJavascript E h x c = (c', err)"
      by (cases "injectJavascript E h x c") auto
    have "staged E c'"
      using injectJavascript_staged [OF s, of h x] i by simp
    then show ?thesis
      using InjectJavascript h i by (cases err) (simp_all add: via_ref_def staged_trace)
  next
    case (EngineDOMContentLoaded i)
    then show ?thesis
      using engine_event_staged [OF s, of "engine_DOMContentLoaded E" i]
        engine_DOMContentLoaded_built(1) by simp
  next
    case (EngineLoad i)
    then show ?thesis
      using engine_event_staged [OF s, of "engine_load E" i] engine_load_built(1) by simp
  next
    case (SetProps pr)
    then show ?thesis
      using s by (simp add: staged_def)
  qed
qed

lemma step_synced: "synced E c \<Longrightarrow> step E a c = Inr c' \<Longrightarrow> synced E c'"
  unfolding step_def by (rule render_synced [OF act_staged])

lemma run_synced: "synced E c \<Longrightarrow> run E as c = Inr c' \<Longrightarrow> synced E c'"
proof (induction as arbitrary: c)
  case Nil
  then show ?case by simp
next
  case (Cons a as)
  then show ?case
    by (cases "step E a c") (auto dest: step_synced)
qed

lemma reachable_synced: "mount E pr = Inr c0 \<Longrightarrow> run E as c0 = Inr c \<Longrightarrow> synced E c"
  by (rule run_synced [OF mount_synced])

lemma demo_params_at:
  "initDOM_params demo_props n = demo_params\<lparr>param_loadCycleId := n\<rparr>"
  by (simp add: demo_params_def initDOM_params_def)

lemma demo_initDOM_at:
  "initDOM demo_engine (initDOM_params demo_props n) = (demo_start, Inr (demo_dom_at n ''Home'' Loading))"
proof -
  let ?p = "demo_params\<lparr>param_loadCycleId := n\<rparr>"
  have h: "window_href demo_engine ?p = Some ''https://example.org/''"
    by (simp add: window_href_def demo_params_simps demo_engine_def)
  have w: "beforeParse demo_engine ?p w = beforeParse demo_engine demo_params w" for w
    by (rule beforeParse_cong) simp_all
  have "new_JSDOM demo_engine ?p = ([], Inr ((demo_dom ''Home'' Loading)\<lparr>listeners := [], env := ?p\<rparr>))"
    using demo_new_JSDOM
    by (simp add: new_JSDOM_def h demo_href w demo_beforeParse demo_dom_def runScripts_option_def)
  then show ?thesis
    unfolding demo_params_at
    apply (simp add: initDOM_def installed_def Let_def demo_dom_def demo_dom_at_def demo_params_at)
    apply (simp add: demo_params_simps demo_start_def createNativeEvent_def eventBase_def
        demo_window_def demo_event_def)
    done
qed

lemma demo_mount:
  "mount demo_engine demo_props = Inr (demo_component 0 loading [demo_dom_at 0 ''Home'' Loading] demo_start)"
  unfolding mount_def
  by (subst render_miss [where effs = demo_start and d = "demo_dom_at 0 ''Home'' Loading"])
     (simp_all add: demo_initDOM_at demo_component_def)

lemma demo_reload:
  assumes "hp \<noteq> []"
  shows "step demo_engine Reload (demo_component n st hp tr) =
           Inr (demo_component (n + 1) st (hp @ [demo_dom_at (n + 1) ''Home'' Loading]) (tr @ demo_start))"
proof -
  have a: "act demo_engine Reload (demo_component n st hp tr)
             = (demo_component n st hp tr)\<lparr>loadCycleId := n + 1\<rparr>"
    by (simp add: via_ref_def reload_def demo_component_def)
  have m: "initDOM_params demo_props n \<noteq> initDOM_params demo_props (n + 1)"
    by (simp add: initDOM_params_def)
  show ?thesis
    unfolding step_def a
    by (subst render_miss [where effs = demo_start and d = "demo_dom_at (n + 1) ''Home'' Loading"])
       (use m assms in \<open>simp_all add: demo_initDOM_at demo_component_def\<close>)
qed

lemma demo_step_contentLoaded:
  "step demo_engine (EngineDOMContentLoaded 0) (demo_component 0 loading [demo_dom_at 0 ''Home'' Loading] tr) =
     Inr (demo_component 0 loading [demo_dom_at 0 ''1'' Interactive] tr)"
proof -
  have e: "engine_DOMContentLoaded demo_engine (demo_dom_at 0 ''Home'' Loading)
             = (demo_dom_at 0 ''1'' Interactive, [])"
    using demo_contentLoaded
    by (simp add: demo_dom_at_def demo_params_def [symmetric]) (simp add: demo_dom_def)
  have a: "act demo_engine (EngineDOMContentLoaded 0) (demo_component 0 loading [demo_dom_at 0 ''Home'' Loading] tr)
             = demo_component 0 loading [demo_dom_at 0 ''1'' Interactive] tr"
    by (simp add: engine_event_def e demo_component_def)
  show ?thesis
    unfolding step_def a
    by (subst render_hit [where a = 0]) (simp_all add: demo_component_def)
qed

lemma demo_engine_load:
  "engine_load demo_engine (demo_dom ''1'' Interactive) = (demo_dom ''1'' Complete, demo_loaded)"
  by (simp add: engine_load_def dispatchEvent_def demo_dom_def installed_def load_listener_def
        Let_def demo_params_simps createNativeEvent_def eventBase_def demo_window_def
        demo_event_def demo_loaded_def)

lemma demo_step_load:
  "step demo_engine (EngineLoad 0) (demo_component 0 loading [demo_dom_at 0 ''1'' Interactive] tr) =
     Inr (demo_component 0 loaded [demo_dom_at 0 ''1'' Complete] (tr @ demo_loaded))"
proof -
  have e: "engine_load demo_engine (demo_dom_at 0 ''1'' Interactive)
             = (demo_dom_at 0 ''1'' Complete, demo_loaded)"
    using demo_engine_load
    by (simp add: demo_dom_at_def demo_params_def [symmetric] demo_loaded_def) (simp add: demo_dom_def)
  have a: "act demo_engine (EngineLoad 0) (demo_component 0 loading [demo_dom_at 0 ''1'' Interactive] tr)
             = (demo_component 0 loading [demo_dom_at 0 ''1'' Complete] (tr @ demo_loaded))\<lparr>backendState := loaded\<rparr>"
    by (simp add: engine_event_def e demo_component_def demo_loaded_def)
  show ?thesis
    unfolding step_def a
    by (subst render_hit [where a = 0]) (simp_all add: demo_component_def)
qed

lemma demo_reloaded_0:
  "demo_reloaded 0 = demo_component 0 loading [demo_dom_at 0 ''Home'' Loading] demo_start"
  by (simp add: demo_reloaded_def)

lemma demo_reloaded_step: "step demo_engine Reload (demo_reloaded n) = Inr (demo_reloaded (Suc n))"
proof -
  have "concat (replicate n demo_start) @ demo_start = demo_start @ concat (replicate n demo_start)"
    by (induction n) simp_all
  then show ?thesis
    unfolding demo_reloaded_def
    by (subst demo_reload) (simp_all add: add.commute)
qed

lemma demo_run_load:
  "run demo_engine [EngineDOMContentLoaded 0, EngineLoad 0]
     (demo_component 0 loading [demo_dom_at 0 ''Home'' Loading] demo_start)
   = Inr (demo_component 0 loaded [demo_dom_at 0 ''1'' Complete] (demo_start @ demo_loaded))"
  by (simp add: demo_step_contentLoaded demo_step_load)

lemma demo_ref: "ref_current (demo_component 0 st [d] tr) = Some (demo_handle st)"
  by (simp add: demo_component_def demo_handle_def)

lemma render_synced_id:
  assumes "synced E c"
  shows "render E (c\<lparr>trace := t\<rparr>) = Inr (c\<lparr>trace := t\<rparr>)"
proof -
  have m: "memo (c\<lparr>trace := t\<rparr>)
             = Some (initDOM_params (props (c\<lparr>trace := t\<rparr>)) (loadCycleId (c\<lparr>trace := t\<rparr>)),
                     length (heap c) - 1)"
    using assms by (simp add: synced_def)
  show ?thesis
    using assms by (subst render_hit [OF m]) (simp add: synced_def)
qed

text \<open>
  C9. \<open>stopLoading\<close>, \<open>goBack\<close> and \<open>goForward\<close> only write their warning: called on any
  handle they return the component with the warning added to what it has emitted and
  nothing else changed, and they have no exceptional outcome. Called through the
  reference of a mounted component, the render that follows builds no DOM instance, so
  that the status, the load-cycle counter, the current DOM instance, the store of
  instances and the handle are all as before.
\<close>

theorem unimplemented_controls_only_warn:
  "stopLoading h c = c\<lparr>trace := trace c @ [ConsoleWarn ''stopLoading not implemented'']\<rparr>
   \<and> goBack h c = c\<lparr>trace := trace c @ [ConsoleWarn ''goBack not implemented'']\<rparr>
   \<and> goForward h c = c\<lparr>trace := trace c @ [ConsoleWarn ''goForward not implemented'']\<rparr>
   \<and> (mount E pr = Inr c0 \<and> run E as c0 = Inr c \<longrightarrow>
        step E StopLoading c = Inr (c\<lparr>trace := trace c @ [ConsoleWarn ''stopLoading not implemented'']\<rparr>)
        \<and> step E GoBack c = Inr (c\<lparr>trace := trace c @ [ConsoleWarn ''goBack not implemented'']\<rparr>)
        \<and> step E GoForward c = Inr (c\<lparr>trace := trace c @ [ConsoleWarn ''goForward not implemented'']\<rparr>))"
proof -
  have "step E StopLoading c = Inr (c\<lparr>trace := trace c @ [ConsoleWarn ''stopLoading not implemented'']\<rparr>)
        \<and> step E GoBack c = Inr (c\<lparr>trace := trace c @ [ConsoleWarn ''goBack not implemented'']\<rparr>)
        \<and> step E GoForward c = Inr (c\<lparr>trace := trace c @ [ConsoleWarn ''goForward not implemented'']\<rparr>)"
    if "mount E pr = Inr c0" and "run E as c0 = Inr c"
  proof -
    have s: "synced E c"
      using that by (rule reachable_synced)
    then obtain h' where "ref_current c = Some h'"
      by (simp add: synced_def)
    then show ?thesis
      using render_synced_id [OF s]
      by (simp add: step_def via_ref_def stopLoading_def goBack_def goForward_def)
  qed
  then show ?thesis
    by (simp add: stopLoading_def goBack_def goForward_def)
qed

theorem unimplemented_controls_only_warn_witness:
  "mount demo_engine demo_props = Inr (demo_component 0 loading [demo_dom_at 0 ''Home'' Loading] demo_start)
   \<and> run demo_engine [] (demo_component 0 loading [demo_dom_at 0 ''Home'' Loading] demo_start)
       = Inr (demo_component 0 loading [demo_dom_at 0 ''Home'' Loading] demo_start)
   \<and> step demo_engine GoBack (demo_component 0 loading [demo_dom_at 0 ''Home'' Loading] demo_start)
       = Inr (demo_component 0 loading [demo_dom_at 0 ''Home'' Loading]
                (demo_start @ [ConsoleWarn ''goBack not implemented'']))"
proof -
  have r: "run demo_engine [] (demo_component 0 loading [demo_dom_at 0 ''Home'' Loading] demo_start)
       = Inr (demo_component 0 loading [demo_dom_at 0 ''Home'' Loading] demo_start)"
    by simp
  show ?thesis
    using unimplemented_controls_only_warn
      [where E = demo_engine and pr = demo_props and as = "[]"
         and ?c0.0 = "demo_component 0 loading [demo_dom_at 0 ''Home'' Loading] demo_start"
         and c = "demo_component 0 loading [demo_dom_at 0 ''Home'' Loading] demo_start"]
      demo_mount r
    by (simp add: demo_component_def)
qed

text \<open>
  C10. After the mount and after everything that happens to the mounted component, the
  handle in the forwarded reference has the property \<open>dom\<close>, and it is the address of
  the current DOM instance: the one \<open>useMemo\<close> holds for the current props and load
  cycle, which is the last one built. \<open>getWindow\<close> and \<open>getDocument\<close> read that same
  instance.
\<close>

theorem handle_holds_current_dom:
  assumes "mount E pr = Inr c0" and "run E as c0 = Inr c"
  shows "\<exists>h. ref_current c = Some h
           \<and> memo c = Some (initDOM_params (props c) (loadCycleId c), h_dom h)
           \<and> h_dom h < length (heap c) \<and> Suc (h_dom h) = length (heap c)
           \<and> getWindow h c = Some (window (heap c ! h_dom h))
           \<and> getDocument h c = Some (document (window (heap c ! h_dom h)))"
proof -
  have s: "synced E c"
    using assms by (rule reachable_synced)
  then have "heap c \<noteq> []"
    by (simp add: synced_def)
  then have "length (heap c) - 1 < length (heap c)" "Suc (length (heap c) - 1) = length (heap c)"
    by simp_all
  then show ?thesis
    using s by (simp add: synced_def getWindow_def getDocument_def)
qed

theorem handle_holds_current_dom_witness:
  "mount demo_engine demo_props = Inr (demo_component 0 loading [demo_dom_at 0 ''Home'' Loading] demo_start)
   \<and> run demo_engine [Reload] (demo_component 0 loading [demo_dom_at 0 ''Home'' Loading] demo_start)
       = Inr (demo_component 1 loading [demo_dom_at 0 ''Home'' Loading, demo_dom_at 1 ''Home'' Loading]
                (demo_start @ demo_start))
   \<and> map_option h_dom (ref_current
        (demo_component 1 loading [demo_dom_at 0 ''Home'' Loading, demo_dom_at 1 ''Home'' Loading]
           (demo_start @ demo_start))) = Some 1
   \<and> map_option snd (memo
        (demo_component 1 loading [demo_dom_at 0 ''Home'' Loading, demo_dom_at 1 ''Home'' Loading]
           (demo_start @ demo_start))) = Some 1"
proof -
  have r: "run demo_engine [Reload] (demo_component 0 loading [demo_dom_at 0 ''Home'' Loading] demo_start)
       = Inr (demo_component 1 loading [demo_dom_at 0 ''Home'' Loading, demo_dom_at 1 ''Home'' Loading]
                (demo_start @ demo_start))"
    using demo_reload [of "[demo_dom_at 0 ''Home'' Loading]" 0 loading demo_start] by simp
  show ?thesis
    using handle_holds_current_dom [OF demo_mount r] demo_mount r
    by (auto simp: demo_component_def)
qed

lemma act_heap_length: "length (heap (act E a c)) = length (heap c)"
proof (cases a)
  case (InjectJavascript s)
  have "length (heap (fst (injectJavascript E h s c'))) = length (heap c')" for h c'
    using apply_effects_frame
    by (auto simp: injectJavascript_def Let_def split: prod.splits)
  then show ?thesis
    using InjectJavascript
    by (auto simp: via_ref_def split: option.splits prod.splits)
       (metis fst_conv)+
next
  case (EngineDOMContentLoaded i)
  then show ?thesis
    using apply_effects_frame by (auto simp: engine_event_def split: prod.splits)
next
  case (EngineLoad i)
  then show ?thesis
    using apply_effects_frame by (auto simp: engine_event_def split: prod.splits)
qed (auto simp: via_ref_def reload_def stopLoading_def goBack_def goForward_def split: option.splits)

lemma render_heap_length: "render E c = Inr c' \<Longrightarrow> length (heap c) \<le> length (heap c')"
  using apply_effects_frame
  by (auto simp: render_def Let_def split: option.splits prod.splits sum.splits if_splits)

lemma step_heap_length: "step E a c = Inr c' \<Longrightarrow> length (heap c) \<le> length (heap c')"
  using render_heap_length [of E "act E a c" c'] by (simp add: step_def act_heap_length)

lemma run_heap_length: "run E as c = Inr c' \<Longrightarrow> length (heap c) \<le> length (heap c')"
proof (induction as arbitrary: c)
  case Nil
  then show ?case by simp
next
  case (Cons a as)
  then show ?case
    by (cases "step E a c") (auto dest!: step_heap_length intro: order_trans)
qed

lemma injectJavascript_loaded:
  assumes "h_backendState h = loaded" and "h_dom h < length (heap c)" and "built (heap c ! h_dom h)"
    and "window_eval E (env (heap c ! h_dom h)) (runScripts (heap c ! h_dom h)) True s
           (window (heap c ! h_dom h)) = (w, effs, err)"
  shows "snd (injectJavascript E h s c) = err"
    and "heap (fst (injectJavascript E h s c)) = (heap c)[h_dom h := (heap c ! h_dom h)\<lparr>window := w\<rparr>]"
    and "trace (fst (injectJavascript E h s c)) = trace c @ effs"
    and "loadCycleId (fst (injectJavascript E h s c)) = loadCycleId c"
    and "backendState (fst (injectJavascript E h s c)) = backendState c"
proof -
  let ?c = "c\<lparr>heap := (heap c)[h_dom h := (heap c ! h_dom h)\<lparr>window := w\<rparr>]\<rparr>"
  have i: "fst (injectJavascript E h s c) = apply_effects effs ?c"
    and "snd (injectJavascript E h s c) = err"
    using assms(1,2,4) by (simp_all add: injectJavascript_def Let_def)
  then show "snd (injectJavascript E h s c) = err" by simp
  have n: "\<forall>st. SetBackendState st \<notin> set effs"
    using window_eval_host_no_state [of "env (heap c ! h_dom h)" _ E "runScripts (heap c ! h_dom h)"
        True s "window (heap c ! h_dom h)"] assms(3,4)
    by (simp add: built_def)
  show "heap (fst (injectJavascript E h s c)) = (heap c)[h_dom h := (heap c ! h_dom h)\<lparr>window := w\<rparr>]"
    and "trace (fst (injectJavascript E h s c)) = trace c @ effs"
    and "loadCycleId (fst (injectJavascript E h s c)) = loadCycleId c"
    using apply_effects_frame [of effs ?c] by (simp_all add: i)
  show "backendState (fst (injectJavascript E h s c)) = backendState c"
    using backendState_unchanged [OF n, of ?c] by (simp add: i)
qed

text \<open>
  C4, as amended. What \<open>injectJavascript\<close> does is decided by the handle it is called
  on. A handle taken from the reference of a mounted component has captured the status
  of that moment and the address of the instance that was current then, and keeps both
  whatever happens to the component afterwards. Called on a handle that captured
  \<open>loading\<close>, \<open>injectJavascript\<close> leaves the component as it is and raises nothing. Called
  on a handle that captured \<open>loaded\<close>, it changes neither the status nor the load cycle,
  and if the handle's instance was built with \<open>javaScriptEnabled\<close> truthy, the script
  runs in the window of that instance: the window and the document that \<open>getWindow\<close> and
  \<open>getDocument\<close> return afterwards are the ones the script produced, what the script
  dispatched has been dispatched, and an exception of the script is the exception of
  the call. For the handle that is in the reference now, the captured status is the
  status of the component.
\<close>

theorem injectJavascript_by_captured_status:
  assumes "mount E pr = Inr c0" and "run E as c0 = Inr c1" and "ref_current c1 = Some h"
    and "run E bs c1 = Inr c"
  shows
    "h_backendState h = backendState c1 \<and> Suc (h_dom h) = length (heap c1)
     \<and> h_dom h < length (heap c)
     \<and> (backendState c1 = loading \<longrightarrow> injectJavascript E h s c = (c, None))
     \<and> (backendState c1 = loaded \<longrightarrow>
          (let d = heap c ! h_dom h;
               c' = fst (injectJavascript E h s c)
           in backendState c' = backendState c \<and> loadCycleId c' = loadCycleId c
              \<and> (truthy_bool (javaScriptEnabled (env d)) \<longrightarrow>
                   (let r = exec_actions (env d) True (actions_of E s) (window d)
                    in snd (injectJavascript E h s c) = snd (snd r)
                       \<and> getWindow h c' = Some (fst r)
                       \<and> getDocument h c' = Some (document (fst r))
                       \<and> trace c' = trace c @ fst (snd r)))))"
proof -
  have s1: "synced E c1"
    using assms(1,2) by (rule reachable_synced)
  have s: "synced E c"
    using s1 assms(4) by (rule run_synced)
  have ne: "heap c1 \<noteq> []"
    using s1 by (simp add: synced_def)
  have h: "h = \<lparr>h_dom = length (heap c1) - 1, h_loadCycleId = loadCycleId c1,
                h_backendState = backendState c1\<rparr>"
    using s1 assms(3) by (simp add: synced_def)
  have b: "h_backendState h = backendState c1" and a1: "Suc (h_dom h) = length (heap c1)"
    using ne by (simp_all add: h)
  have a: "h_dom h < length (heap c)"
    using a1 run_heap_length [OF assms(4)] by simp
  let ?d = "heap c ! h_dom h"
  have bd: "built ?d"
    using s a by (simp add: synced_def built_nth)
  have 1: "injectJavascript E h s c = (c, None)" if "backendState c1 = loading"
    using that b by (simp add: injectJavascript_def)
  have 2: "(let d = heap c ! h_dom h;
               c' = fst (injectJavascript E h s c)
           in backendState c' = backendState c \<and> loadCycleId c' = loadCycleId c
              \<and> (truthy_bool (javaScriptEnabled (env d)) \<longrightarrow>
                   (let r = exec_actions (env d) True (actions_of E s) (window d)
                    in snd (injectJavascript E h s c) = snd (snd r)
                       \<and> getWindow h c' = Some (fst r)
                       \<and> getDocument h c' = Some (document (fst r))
                       \<and> trace c' = trace c @ fst (snd r))))"
    if l: "backendState c1 = loaded"
  proof -
    obtain w effs err
      where e: "window_eval E (env ?d) (runScripts ?d) True s (window ?d) = (w, effs, err)"
      by (cases "window_eval E (env ?d) (runScripts ?d) True s (window ?d)") auto
    have hl: "h_backendState h = loaded"
      using b l by simp
    note i = injectJavascript_loaded [OF hl a bd e]
    have rs: "runScripts ?d = runScripts_option (env ?d)"
      using bd by (simp add: built_def)
    have on: "(w, effs, err) = exec_actions (env ?d) True (actions_of E s) (window ?d)"
      if "truthy_bool (javaScriptEnabled (env ?d))"
      using that e rs by (simp add: window_eval_def runScripts_option_def)
    have p1: "snd (injectJavascript E h s c) = snd (snd r)
              \<and> getWindow h (fst (injectJavascript E h s c)) = Some (fst r)
              \<and> getDocument h (fst (injectJavascript E h s c)) = Some (document (fst r))
              \<and> trace (fst (injectJavascript E h s c)) = trace c @ fst (snd r)"
      if "truthy_bool (javaScriptEnabled (env ?d))"
        and "r = exec_actions (env ?d) True (actions_of E s) (window ?d)" for r
      using on [OF that(1)] that(2) i(1-3) a
      by (simp add: getWindow_def getDocument_def) (metis fst_conv snd_conv)
    show ?thesis
      using i(4,5) p1 by (simp add: Let_def)
  qed
  show ?thesis
    using b a1 a 1 2 by blast
qed

theorem injectJavascript_by_captured_status_witness:
  "mount demo_engine demo_props = Inr (demo_component 0 loading [demo_dom_at 0 ''Home'' Loading] demo_start)
   \<and> run demo_engine [EngineDOMContentLoaded 0, EngineLoad 0]
        (demo_component 0 loading [demo_dom_at 0 ''Home'' Loading] demo_start)
       = Inr (demo_component 0 loaded [demo_dom_at 0 ''1'' Complete] (demo_start @ demo_loaded))
   \<and> ref_current (demo_component 0 loaded [demo_dom_at 0 ''1'' Complete] (demo_start @ demo_loaded))
       = Some (demo_handle loaded)
   \<and> getDocument (demo_handle loaded)
        (fst (injectJavascript demo_engine (demo_handle loaded) ''document.title = String(2)''
               (demo_component 0 loaded [demo_dom_at 0 ''1'' Complete] (demo_start @ demo_loaded))))
       = Some \<lparr>title = ''2''\<rparr>
   \<and> ref_current (demo_component 0 loading [demo_dom_at 0 ''Home'' Loading] demo_start)
       = Some (demo_handle loading)
   \<and> injectJavascript demo_engine (demo_handle loading) ''document.title = String(2)''
        (demo_component 0 loading [demo_dom_at 0 ''Home'' Loading] demo_start)
       = (demo_component 0 loading [demo_dom_at 0 ''Home'' Loading] demo_start, None)
   \<and> injectJavascript demo_engine (demo_handle loading) ''document.title = String(2)''
        (demo_component 0 loaded [demo_dom_at 0 ''1'' Complete] (demo_start @ demo_loaded))
       = (demo_component 0 loaded [demo_dom_at 0 ''1'' Complete] (demo_start @ demo_loaded), None)"
proof -
  let ?M = "demo_component 0 loading [demo_dom_at 0 ''Home'' Loading] demo_start"
  let ?L = "demo_component 0 loaded [demo_dom_at 0 ''1'' Complete] (demo_start @ demo_loaded)"
  let ?s = "''document.title = String(2)''"
  have r0: "run demo_engine [] c = Inr c" for c by simp
  have bM: "backendState ?M = loading" and bL: "backendState ?L = loaded"
    by (simp_all add: demo_component_def)
  have dL: "window (heap ?L ! h_dom (demo_handle loaded)) = demo_window ''1''"
    "truthy_bool (javaScriptEnabled (env (heap ?L ! h_dom (demo_handle loaded))))"
    by (simp_all add: demo_component_def demo_handle_def demo_dom_at_def demo_dom_def
          initDOM_params_def demo_props_def)
  have e: "exec_actions p True (actions_of demo_engine ?s) (demo_window t) = (demo_window ''2'', [], None)"
    for p t
    by (simp add: demo_engine_def demo_window_def)
  have 1: "getDocument (demo_handle loaded) (fst (injectJavascript demo_engine (demo_handle loaded) ?s ?L))
             = Some \<lparr>title = ''2''\<rparr>"
    using injectJavascript_by_captured_status [OF demo_mount demo_run_load demo_ref r0, of ?s] bL dL
    by (simp add: Let_def e) (simp add: demo_window_def)
  have 2: "injectJavascript demo_engine (demo_handle loading) ?s ?M = (?M, None)"
    using injectJavascript_by_captured_status [OF demo_mount r0 demo_ref r0, of ?s] bM
    by simp
  have 3: "injectJavascript demo_engine (demo_handle loading) ?s ?L = (?L, None)"
    using injectJavascript_by_captured_status [OF demo_mount r0 demo_ref demo_run_load, of ?s] bM
    by simp
  show ?thesis
    using demo_mount demo_run_load demo_ref 1 2 3
    by simp
qed

text \<open>
  C4 as stated fails: the status at the time of the call does not decide. The handle
  taken at the mount has captured \<open>loading\<close>; after the instance has loaded the status is
  \<open>loaded\<close>, and \<open>injectJavascript\<close> on that handle still does nothing: the document keeps
  its title.
\<close>

theorem injectJavascript_on_stale_handle_counterexample:
  "mount demo_engine demo_props = Inr (demo_component 0 loading [demo_dom_at 0 ''Home'' Loading] demo_start)
   \<and> ref_current (demo_component 0 loading [demo_dom_at 0 ''Home'' Loading] demo_start)
       = Some (demo_handle loading)
   \<and> run demo_engine [EngineDOMContentLoaded 0, EngineLoad 0]
        (demo_component 0 loading [demo_dom_at 0 ''Home'' Loading] demo_start)
       = Inr (demo_component 0 loaded [demo_dom_at 0 ''1'' Complete] (demo_start @ demo_loaded))
   \<and> backendState (demo_component 0 loaded [demo_dom_at 0 ''1'' Complete] (demo_start @ demo_loaded))
       = loaded
   \<and> injectJavascript demo_engine (demo_handle loading) ''document.title = String(2)''
        (demo_component 0 loaded [demo_dom_at 0 ''1'' Complete] (demo_start @ demo_loaded))
       = (demo_component 0 loaded [demo_dom_at 0 ''1'' Complete] (demo_start @ demo_loaded), None)
   \<and> getDocument (demo_handle loading)
        (demo_component 0 loaded [demo_dom_at 0 ''1'' Complete] (demo_start @ demo_loaded))
       = Some \<lparr>title = ''1''\<rparr>"
  using demo_mount demo_run_load
  by (simp add: demo_ref injectJavascript_def demo_handle_def getDocument_def)
     (simp add: demo_component_def demo_dom_at_def demo_dom_def demo_window_def)

lemma run_listener_no_loading: "SetBackendState loading \<notin> set (snd (run_listener E l d))"
proof (cases l)
  case ContentLoadedListener
  then show ?thesis
    using contentLoaded_no_loading [of E "env d" "runScripts d" "window d"]
    by (auto split: prod.splits option.splits)
next
  case LoadListener
  then show ?thesis
    by (simp add: load_listener_no_loading)
qed

lemma run_listeners_no_loading: "SetBackendState loading \<notin> set (snd (run_listeners E ls d))"
proof (induction ls arbitrary: d)
  case Nil
  show ?case by simp
next
  case (Cons l ls)
  obtain d1 e1 where 1: "run_listener E l d = (d1, e1)"
    by (cases "run_listener E l d") auto
  obtain d2 e2 where 2: "run_listeners E ls d1 = (d2, e2)"
    by (cases "run_listeners E ls d1") auto
  have "SetBackendState loading \<notin> set e1"
    using run_listener_no_loading [of E l d] 1 by simp
  moreover have "SetBackendState loading \<notin> set e2"
    using Cons [of d1] 2 by simp
  ultimately show ?case
    using 1 2 by simp
qed

lemma engine_no_loading:
  "SetBackendState loading \<notin> set (snd (engine_DOMContentLoaded E d))"
  "SetBackendState loading \<notin> set (snd (engine_load E d))"
  by (simp_all add: engine_DOMContentLoaded_def engine_load_def dispatchEvent_def
        run_listeners_no_loading)

lemma engine_event_keeps_loaded:
  assumes "\<And>d. SetBackendState loading \<notin> set (snd (f d))" and "backendState c = loaded"
  shows "backendState (engine_event f a c) = loaded"
proof (cases "a < length (heap c)")
  case True
  obtain d effs where f: "f (heap c ! a) = (d, effs)"
    by (cases "f (heap c ! a)") auto
  have "SetBackendState loading \<notin> set effs"
    using assms(1) [of "heap c ! a"] f by simp
  then show ?thesis
    using True f assms(2) by (simp add: engine_event_def backendState_stays_loaded)
next
  case False
  then show ?thesis
    using assms(2) by (simp add: engine_event_def)
qed

lemma injectJavascript_keeps_loaded:
  assumes "backendState c = loaded"
  shows "backendState (fst (injectJavascript E h s c)) = loaded"
proof (cases "h_backendState h = loaded \<and> h_dom h < length (heap c)")
  case True
  let ?d = "heap c ! h_dom h"
  obtain w effs err where e: "window_eval E (env ?d) (runScripts ?d) True s (window ?d) = (w, effs, err)"
    by (cases "window_eval E (env ?d) (runScripts ?d) True s (window ?d)") auto
  have "SetBackendState loading \<notin> set effs"
    using window_eval_no_loading [of E "env ?d" "runScripts ?d" True s "window ?d"] e by simp
  then show ?thesis
    using True e assms by (simp add: injectJavascript_def Let_def backendState_stays_loaded)
next
  case False
  then show ?thesis
    using assms by (auto simp: injectJavascript_def)
qed

lemma act_keeps_loaded:
  assumes "backendState c = loaded"
  shows "backendState (act E a c) = loaded"
proof (cases a)
  case (InjectJavascript s)
  show ?thesis
  proof (cases "ref_current c")
    case None
    then show ?thesis
      using InjectJavascript assms by (simp add: via_ref_def)
  next
    case (Some h)
    obtain c' err where i: "injectJavascript E h s c = (c', err)"
      by (cases "injectJavascript E h s c") auto
    have "backendState c' = loaded"
      using injectJavascript_keeps_loaded [OF assms, of E h s] i by simp
    then show ?thesis
      using InjectJavascript Some i by (cases err) (simp_all add: via_ref_def)
  qed
next
  case (EngineDOMContentLoaded i)
  then show ?thesis
    using engine_event_keeps_loaded [OF engine_no_loading(1) assms] by simp
next
  case (EngineLoad i)
  then show ?thesis
    using engine_event_keeps_loaded [OF engine_no_loading(2) assms] by simp
qed (use assms in \<open>auto simp: via_ref_def reload_def stopLoading_def goBack_def goForward_def
       split: option.splits\<close>)

lemma render_backendState: "render E c = Inr c' \<Longrightarrow> backendState c' = backendState c"
proof -
  assume r: "render E c = Inr c'"
  let ?p = "initDOM_params (props c) (loadCycleId c)"
  show ?thesis
  proof (cases "\<exists>a. memo c = Some (?p, a)")
    case True
    then obtain a where m: "memo c = Some (?p, a)" by blast
    show ?thesis
      using render_hit [OF m, of E] r by auto
  next
    case False
    then have miss: "memo c = None \<or> (\<exists>deps a. memo c = Some (deps, a) \<and> deps \<noteq> ?p)"
      by (cases "memo c") auto
    obtain effs x where i: "initDOM E ?p = (effs, x)"
      by (cases "initDOM E ?p") auto
    have "\<not> isl x"
      using r miss i by (auto simp: render_def Let_def split: option.splits sum.splits if_splits)
    then obtain d where "x = Inr d" by (cases x) auto
    then show ?thesis
      using render_miss [OF miss, of E effs d] i r by auto
  qed
qed

lemma step_keeps_loaded: "backendState c = loaded \<Longrightarrow> step E a c = Inr c' \<Longrightarrow> backendState c' = loaded"
  using render_backendState [of E "act E a c" c'] act_keeps_loaded [of c E a]
  by (simp add: step_def)

lemma run_keeps_loaded: "backendState c = loaded \<Longrightarrow> run E as c = Inr c' \<Longrightarrow> backendState c' = loaded"
proof (induction as arbitrary: c)
  case Nil
  then show ?case by simp
next
  case (Cons a as)
  then show ?case
    by (cases "step E a c") (auto dest: step_keeps_loaded)
qed

lemma mount_loading: "mount E pr = Inr c \<Longrightarrow> backendState c = loading"
  using render_backendState [of E _ c] by (fastforce simp: mount_def)

lemma engine_event_backendState:
  assumes "list_all built (heap c)" and "\<And>d s. built d \<Longrightarrow> SetBackendState s \<notin> set (snd (f d))"
  shows "backendState (engine_event f a c) = backendState c"
proof (cases "a < length (heap c)")
  case True
  obtain d effs where f: "f (heap c ! a) = (d, effs)"
    by (cases "f (heap c ! a)") auto
  have "\<forall>s. SetBackendState s \<notin> set effs"
    using assms(2) [of "heap c ! a"] built_nth [OF assms(1) True] f by simp
  then show ?thesis
    using True f by (simp add: engine_event_def backendState_unchanged)
next
  case False
  then show ?thesis by (simp add: engine_event_def)
qed

lemma act_changes_backendState:
  assumes "synced E c" and "backendState (act E a c) \<noteq> backendState c"
  shows "\<exists>i. a = EngineLoad i \<and> i < length (heap c) \<and> ready (heap c ! i) = Interactive"
proof -
  have b: "list_all built (heap c)"
    using assms(1) by (simp add: synced_def)
  show ?thesis
  proof (cases a)
    case (InjectJavascript s)
    obtain h where h: "ref_current c = Some h"
      using assms(1) by (simp add: synced_def)
    obtain c' err where i: "injectJavascript E h s c = (c', err)"
      by (cases "injectJavascript E h s c") auto
    have "backendState c' = backendState c"
    proof (cases "h_backendState h = loaded \<and> h_dom h < length (heap c)")
      case True
      let ?d = "heap c ! h_dom h"
      obtain w effs e where e: "window_eval E (env ?d) (runScripts ?d) True s (window ?d) = (w, effs, e)"
        by (cases "window_eval E (env ?d) (runScripts ?d) True s (window ?d)") auto
      have "built ?d"
        using b True by (simp add: built_nth)
      then have "\<forall>st. SetBackendState st \<notin> set effs"
        using window_eval_host_no_state [of "env ?d" _ E "runScripts ?d" True s "window ?d"] e by (simp add: built_def)
      then show ?thesis
        using True e i by (auto simp: injectJavascript_def Let_def backendState_unchanged)
    next
      case False
      then show ?thesis
        using i by (auto simp: injectJavascript_def)
    qed
    then show ?thesis
      using InjectJavascript h i assms(2) by (cases err) (simp_all add: via_ref_def)
  next
    case (EngineDOMContentLoaded i)
    then show ?thesis
      using engine_event_backendState [OF b, of "engine_DOMContentLoaded E" i]
        engine_DOMContentLoaded_built(2) assms(2) by simp
  next
    case (EngineLoad i)
    show ?thesis
    proof (cases "i < length (heap c) \<and> ready (heap c ! i) = Interactive")
      case True
      then show ?thesis using EngineLoad by simp
    next
      case False
      have "backendState (engine_event (engine_load E) i c) = backendState c"
      proof (cases "i < length (heap c)")
        case True
        then have "ready (heap c ! i) \<noteq> Interactive"
          using False by simp
        then have "engine_load E (heap c ! i) = (heap c ! i, [])"
          by (simp add: engine_load_def)
        then show ?thesis
          using True by (simp add: engine_event_def)
      next
        case False
        then show ?thesis by (simp add: engine_event_def)
      qed
      then show ?thesis
        using EngineLoad assms(2) by simp
    qed
  qed (use assms in \<open>auto simp: via_ref_def reload_def stopLoading_def goBack_def goForward_def
         synced_def\<close>)
qed

lemma act_load_sets_loaded:
  assumes "synced E c" and "i < length (heap c)" and "ready (heap c ! i) = Interactive"
  shows "backendState (act E (EngineLoad i) c) = loaded"
proof -
  obtain d effs where f: "engine_load E (heap c ! i) = (d, effs)"
    by (cases "engine_load E (heap c ! i)") auto
  have b: "built (heap c ! i)"
    using assms(1,2) by (simp add: synced_def built_nth)
  have "SetBackendState loading \<notin> set effs" "SetBackendState loaded \<in> set effs"
    using engine_load_built(2) [OF b, of E] engine_load_built(3) [OF b assms(3), of E] f
    by simp_all
  then show ?thesis
    using assms(2) f by (simp add: engine_event_def backendState_becomes_loaded)
qed

text \<open>
  C5, as amended. The status is \<open>loading\<close> after the mount. It changes only when the
  \<open>load\<close> event of a DOM instance fires, and then from \<open>loading\<close> to \<open>loaded\<close>; that event
  always leaves it \<open>loaded\<close>. Once \<open>loaded\<close> it stays \<open>loaded\<close> whatever happens to the
  component: nothing sets it back to \<open>loading\<close>, neither a reload nor new props.
\<close>

theorem backendState_never_resets:
  "(mount E pr = Inr c0 \<longrightarrow> backendState c0 = loading)
   \<and> (mount E pr = Inr c0 \<and> run E as c0 = Inr c \<and> i < length (heap c)
        \<and> ready (heap c ! i) = Interactive \<and> step E (EngineLoad i) c = Inr c' \<longrightarrow>
        backendState c' = loaded)
   \<and> (mount E pr = Inr c0 \<and> run E as c0 = Inr c \<and> step E a c = Inr c'
        \<and> backendState c' \<noteq> backendState c \<longrightarrow>
        backendState c = loading \<and> backendState c' = loaded
        \<and> (\<exists>j. a = EngineLoad j \<and> j < length (heap c) \<and> ready (heap c ! j) = Interactive))
   \<and> (backendState c = loaded \<and> run E bs c = Inr c'' \<longrightarrow> backendState c'' = loaded)"
proof (intro conjI impI)
  assume "mount E pr = Inr c0"
  then show "backendState c0 = loading" by (rule mount_loading)
next
  assume a: "mount E pr = Inr c0 \<and> run E as c0 = Inr c \<and> i < length (heap c)
        \<and> ready (heap c ! i) = Interactive \<and> step E (EngineLoad i) c = Inr c'"
  then have s: "synced E c"
    using reachable_synced by blast
  show "backendState c' = loaded"
    using a act_load_sets_loaded [OF s, of i] render_backendState [of E "act E (EngineLoad i) c" c']
    by (simp add: step_def)
next
  assume a: "mount E pr = Inr c0 \<and> run E as c0 = Inr c \<and> step E a c = Inr c'
        \<and> backendState c' \<noteq> backendState c"
  then have s: "synced E c"
    using reachable_synced by blast
  have r: "backendState c' = backendState (act E a c)"
    using a render_backendState [of E "act E a c" c'] by (simp add: step_def)
  then have n: "backendState (act E a c) \<noteq> backendState c"
    using a by simp
  show j: "\<exists>j. a = EngineLoad j \<and> j < length (heap c) \<and> ready (heap c ! j) = Interactive"
    using act_changes_backendState [OF s n] .
  have "backendState c \<noteq> loaded"
    using act_keeps_loaded [of c E a] n by auto
  then show "backendState c = loading"
    by (cases "backendState c") auto
  then show "backendState c' = loaded"
    using a by (cases "backendState c'") auto
next
  assume "backendState c = loaded \<and> run E bs c = Inr c''"
  then show "backendState c'' = loaded"
    using run_keeps_loaded by blast
qed

theorem backendState_never_resets_witness:
  "mount demo_engine demo_props = Inr (demo_reloaded 0)
   \<and> backendState (demo_reloaded 0) = loading
   \<and> run demo_engine [EngineDOMContentLoaded 0] (demo_reloaded 0)
       = Inr (demo_component 0 loading [demo_dom_at 0 ''1'' Interactive] demo_start)
   \<and> ready (heap (demo_component 0 loading [demo_dom_at 0 ''1'' Interactive] demo_start) ! 0) = Interactive
   \<and> step demo_engine (EngineLoad 0) (demo_component 0 loading [demo_dom_at 0 ''1'' Interactive] demo_start)
       = Inr (demo_component 0 loaded [demo_dom_at 0 ''1'' Complete] (demo_start @ demo_loaded))
   \<and> backendState (demo_component 0 loaded [demo_dom_at 0 ''1'' Complete] (demo_start @ demo_loaded)) = loaded
   \<and> run demo_engine [Reload] (demo_component 0 loaded [demo_dom_at 0 ''1'' Complete] (demo_start @ demo_loaded))
       = Inr (demo_component 1 loaded [demo_dom_at 0 ''1'' Complete, demo_dom_at 1 ''Home'' Loading]
                (demo_start @ demo_loaded @ demo_start))
   \<and> backendState (demo_component 1 loaded [demo_dom_at 0 ''1'' Complete, demo_dom_at 1 ''Home'' Loading]
                (demo_start @ demo_loaded @ demo_start)) = loaded"
proof -
  let ?M = "demo_reloaded 0"
  let ?I = "demo_component 0 loading [demo_dom_at 0 ''1'' Interactive] demo_start"
  let ?L = "demo_component 0 loaded [demo_dom_at 0 ''1'' Complete] (demo_start @ demo_loaded)"
  let ?X = "demo_component 1 loaded [demo_dom_at 0 ''1'' Complete, demo_dom_at 1 ''Home'' Loading]
                (demo_start @ demo_loaded @ demo_start)"
  have m: "mount demo_engine demo_props = Inr ?M"
    by (simp add: demo_mount demo_reloaded_0)
  have ri: "run demo_engine [EngineDOMContentLoaded 0] ?M = Inr ?I"
    by (simp add: demo_reloaded_0 demo_step_contentLoaded)
  have sl: "step demo_engine (EngineLoad 0) ?I = Inr ?L"
    by (rule demo_step_load)
  have rx: "run demo_engine [Reload] ?L = Inr ?X"
    using demo_reload [of "[demo_dom_at 0 ''1'' Complete]" 0 loaded "demo_start @ demo_loaded"]
    by simp
  have i: "0 < length (heap ?I)" "ready (heap ?I ! 0) = Interactive"
    by (simp_all add: demo_component_def demo_dom_at_def demo_dom_def)
  have d: "backendState ?L \<noteq> backendState ?I"
    by (simp add: demo_component_def)
  note t1 = backendState_never_resets
      [where E = demo_engine and pr = demo_props and ?c0.0 = ?M and as = "[EngineDOMContentLoaded 0]"
         and c = ?I and i = 0 and c' = ?L and a = "EngineLoad 0" and bs = "[]" and c'' = ?I]
  note t2 = backendState_never_resets
      [where E = demo_engine and pr = demo_props and ?c0.0 = ?M and as = "[]"
         and c = ?L and i = 0 and c' = ?L and a = "EngineLoad 0" and bs = "[Reload]" and c'' = ?X]
  have 1: "backendState ?M = loading"
    using t1 m by blast
  have 2: "backendState ?L = loaded"
    using t1 m ri i sl by blast
  have 3: "backendState ?X = loaded"
    using t2 2 rx by blast
  show ?thesis
    using m ri i sl rx 1 2 3 by simp
qed

text \<open>
  C5 as stated fails: after a mount, the two events of the first instance and a reload,
  the component is in load cycle 1 with a second instance that has not fired \<open>load\<close>,
  and the status is \<open>loaded\<close>.
\<close>

theorem status_after_reload_counterexample:
  "mount demo_engine demo_props = Inr (demo_reloaded 0)
   \<and> run demo_engine [EngineDOMContentLoaded 0, EngineLoad 0, Reload] (demo_reloaded 0)
       = Inr (demo_component 1 loaded [demo_dom_at 0 ''1'' Complete, demo_dom_at 1 ''Home'' Loading]
                (demo_start @ demo_loaded @ demo_start))
   \<and> backendState (demo_component 1 loaded [demo_dom_at 0 ''1'' Complete, demo_dom_at 1 ''Home'' Loading]
                (demo_start @ demo_loaded @ demo_start)) = loaded
   \<and> loadCycleId (demo_component 1 loaded [demo_dom_at 0 ''1'' Complete, demo_dom_at 1 ''Home'' Loading]
                (demo_start @ demo_loaded @ demo_start)) = 1
   \<and> map ready (heap (demo_component 1 loaded [demo_dom_at 0 ''1'' Complete, demo_dom_at 1 ''Home'' Loading]
                (demo_start @ demo_loaded @ demo_start))) = [Complete, Loading]"
proof -
  have "step demo_engine Reload (demo_component 0 loaded [demo_dom_at 0 ''1'' Complete] (demo_start @ demo_loaded))
       = Inr (demo_component 1 loaded [demo_dom_at 0 ''1'' Complete, demo_dom_at 1 ''Home'' Loading]
                (demo_start @ demo_loaded @ demo_start))"
    using demo_reload [of "[demo_dom_at 0 ''1'' Complete]" 0 loaded "demo_start @ demo_loaded"]
    by simp
  then show ?thesis
    by (simp add: demo_mount demo_reloaded_0 demo_step_contentLoaded demo_step_load)
       (simp add: demo_component_def demo_dom_at_def demo_dom_def)
qed

lemma reload_params_shift: "reload_params pr (m + 1) k = reload_params pr m (Suc k)"
  by (simp add: reload_params_def add.commute add.left_commute)

lemma initDOM_isl_cycle:
  "isl (snd (initDOM E (initDOM_params pr n))) = isl (snd (initDOM E (initDOM_params pr m)))"
proof -
  have "window_href E (initDOM_params pr n) = window_href E (initDOM_params pr m)"
    by (simp add: window_href_def initDOM_params_def)
  moreover have "beforeParse E (initDOM_params pr n) w = beforeParse E (initDOM_params pr m) w" for w
    by (rule beforeParse_cong) (simp_all add: initDOM_params_def)
  ultimately show ?thesis
    by (simp add: initDOM_isl new_JSDOM_isl split: option.splits)
qed

lemma reload_step:
  assumes "synced E c"
  defines "p1 \<equiv> reload_params (props c) (loadCycleId c) 0"
  shows "\<not> isl (snd (initDOM E p1))"
    and "step E Reload c =
           Inr (c\<lparr>loadCycleId := loadCycleId c + 1,
                  heap := heap c @ [projr (snd (initDOM E p1))],
                  memo := Some (p1, length (heap c)),
                  trace := trace c @ fst (initDOM E p1),
                  ref_current := Some \<lparr>h_dom = length (heap c), h_loadCycleId = loadCycleId c + 1,
                                       h_backendState = backendState c\<rparr>\<rparr>)"
proof -
  have p1: "p1 = initDOM_params (props c) (loadCycleId c + 1)"
    by (simp add: p1_def reload_params_def)
  show ok: "\<not> isl (snd (initDOM E p1))"
    using assms(1) initDOM_isl_cycle [of E "props c" "loadCycleId c + 1" "loadCycleId c"]
    by (simp add: synced_def p1)
  then obtain d where d: "snd (initDOM E p1) = Inr d"
    by (cases "snd (initDOM E p1)") auto
  let ?c = "c\<lparr>loadCycleId := loadCycleId c + 1\<rparr>"
  have a: "act E Reload c = ?c"
    using assms(1) by (simp add: synced_def via_ref_def reload_def)
  have miss: "memo ?c = None \<or>
     (\<exists>deps a. memo ?c = Some (deps, a) \<and> deps \<noteq> initDOM_params (props ?c) (loadCycleId ?c))"
    using assms(1) by (simp add: synced_def initDOM_params_def)
  have i: "initDOM E (initDOM_params (props ?c) (loadCycleId ?c)) = (fst (initDOM E p1), Inr d)"
    using d by (simp add: p1 prod_eq_iff)
  show "step E Reload c =
           Inr (c\<lparr>loadCycleId := loadCycleId c + 1,
                  heap := heap c @ [projr (snd (initDOM E p1))],
                  memo := Some (p1, length (heap c)),
                  trace := trace c @ fst (initDOM E p1),
                  ref_current := Some \<lparr>h_dom = length (heap c), h_loadCycleId = loadCycleId c + 1,
                                       h_backendState = backendState c\<rparr>\<rparr>)"
    unfolding step_def a
    by (subst render_miss [OF miss i]) (simp add: d [unfolded p1] p1)
qed

lemma reload_run:
  assumes "synced E c"
  shows "\<exists>c'. run E (replicate n Reload) c = Inr c'
           \<and> loadCycleId c' = loadCycleId c + int n
           \<and> props c' = props c \<and> backendState c' = backendState c
           \<and> (\<forall>k<n. \<not> isl (snd (initDOM E (reload_params (props c) (loadCycleId c) k))))
           \<and> heap c' = heap c
               @ map (\<lambda>k. projr (snd (initDOM E (reload_params (props c) (loadCycleId c) k)))) [0..<n]
           \<and> trace c' = trace c
               @ concat (map (\<lambda>k. fst (initDOM E (reload_params (props c) (loadCycleId c) k))) [0..<n])"
  using assms
proof (induction n arbitrary: c)
  case 0
  then show ?case by simp
next
  case (Suc n)
  let ?P = "reload_params (props c) (loadCycleId c)"
  obtain c1 where s1: "step E Reload c = Inr c1"
    and c1: "c1 = c\<lparr>loadCycleId := loadCycleId c + 1,
                  heap := heap c @ [projr (snd (initDOM E (?P 0)))],
                  memo := Some (?P 0, length (heap c)),
                  trace := trace c @ fst (initDOM E (?P 0)),
                  ref_current := Some \<lparr>h_dom = length (heap c), h_loadCycleId = loadCycleId c + 1,
                                       h_backendState = backendState c\<rparr>\<rparr>"
    using reload_step(2) [OF Suc.prems] by blast
  have ok0: "\<not> isl (snd (initDOM E (?P 0)))"
    using reload_step(1) [OF Suc.prems] .
  have sy: "synced E c1"
    using step_synced [OF Suc.prems s1] .
  have P1: "reload_params (props c1) (loadCycleId c1) k = ?P (Suc k)" for k
    by (simp add: c1 reload_params_shift)
  obtain c' where r: "run E (replicate n Reload) c1 = Inr c'"
    and l: "loadCycleId c' = loadCycleId c1 + int n"
    and pb: "props c' = props c1" "backendState c' = backendState c1"
    and ok: "\<forall>k<n. \<not> isl (snd (initDOM E (?P (Suc k))))"
    and hp: "heap c' = heap c1 @ map (\<lambda>k. projr (snd (initDOM E (?P (Suc k))))) [0..<n]"
    and tr: "trace c' = trace c1 @ concat (map (\<lambda>k. fst (initDOM E (?P (Suc k)))) [0..<n])"
    using Suc.IH [OF sy] unfolding P1 by blast
  have ok': "\<forall>k<Suc n. \<not> isl (snd (initDOM E (?P k)))"
  proof (intro allI impI)
    fix k assume "k < Suc n"
    then show "\<not> isl (snd (initDOM E (?P k)))"
      using ok0 ok by (cases k) auto
  qed
  have "run E (replicate (Suc n) Reload) c = Inr c'"
    using s1 r by simp
  moreover have "loadCycleId c' = loadCycleId c + int (Suc n)"
    using l by (simp add: c1)
  moreover have "heap c' = heap c @ map (\<lambda>k. projr (snd (initDOM E (?P k)))) [0..<Suc n]"
    unfolding hp map_upt_Suc by (simp add: c1)
  moreover have "trace c' = trace c @ concat (map (\<lambda>k. fst (initDOM E (?P k))) [0..<Suc n])"
    unfolding tr map_upt_Suc by (simp add: c1)
  ultimately show ?case
    using pb ok' by (simp add: c1)
qed

lemma render_keeps_state:
  assumes "render E c = Inr c'"
  shows "loadCycleId c' = loadCycleId c" and "props c' = props c"
proof -
  let ?p = "initDOM_params (props c) (loadCycleId c)"
  have "loadCycleId c' = loadCycleId c \<and> props c' = props c"
  proof (cases "\<exists>a. memo c = Some (?p, a)")
    case True
    then obtain a where m: "memo c = Some (?p, a)" by blast
    show ?thesis
      using render_hit [OF m, of E] assms by auto
  next
    case False
    then have miss: "memo c = None \<or> (\<exists>deps a. memo c = Some (deps, a) \<and> deps \<noteq> ?p)"
      by (cases "memo c") auto
    obtain effs x where i: "initDOM E ?p = (effs, x)"
      by (cases "initDOM E ?p") auto
    have "\<not> isl x"
      using assms miss i by (auto simp: render_def Let_def split: option.splits sum.splits if_splits)
    then obtain d where "x = Inr d" by (cases x) auto
    then show ?thesis
      using render_miss [OF miss, of E effs d] i assms by auto
  qed
  then show "loadCycleId c' = loadCycleId c" and "props c' = props c"
    by simp_all
qed

lemma mount_loadCycleId: "mount E pr = Inr c \<Longrightarrow> loadCycleId c = 0"
  using render_keeps_state(1) [of E _ c] by (fastforce simp: mount_def)

lemma initDOM_projr:
  assumes "\<not> isl (snd (initDOM E p))"
  shows "env (projr (snd (initDOM E p))) = p" and "ready (projr (snd (initDOM E p))) = Loading"
    and "listeners (projr (snd (initDOM E p))) = installed"
proof -
  obtain d where d: "snd (initDOM E p) = Inr d"
    using assms by (cases "snd (initDOM E p)") auto
  then have i: "initDOM E p = (fst (initDOM E p), Inr d)"
    by (simp add: prod_eq_iff)
  show "env (projr (snd (initDOM E p))) = p" and "ready (projr (snd (initDOM E p))) = Loading"
    and "listeners (projr (snd (initDOM E p))) = installed"
    using initDOM_Inr(1-3) [OF i] d by simp_all
qed

text \<open>
  C6, as amended. The load-cycle counter is 0 after the mount. From any state of a
  mounted component, \<open>n\<close> calls of \<open>reload\<close>, each through the handle that the reference
  holds after the render that followed the previous call, succeed and run \<open>initDOM\<close>
  \<open>n\<close> more times: the instances are added to the store in order, still to fire their
  events and with both listeners, the effects of each \<open>initDOM\<close> (the start events among
  them) are emitted in order, and the \<open>k\<close>-th of them is tagged with the counter before
  the calls plus \<open>k\<close>.
\<close>

theorem reload_through_current_handle:
  assumes "mount E pr = Inr c0" and "run E as c0 = Inr c"
  shows
    "loadCycleId c0 = 0 \<and>
     (\<exists>c'. run E (replicate n Reload) c = Inr c'
       \<and> loadCycleId c' = loadCycleId c + int n
       \<and> (\<forall>k<n. \<not> isl (snd (initDOM E (initDOM_params (props c) (loadCycleId c + 1 + int k)))))
       \<and> heap c' = heap c
           @ map (\<lambda>k. projr (snd (initDOM E (initDOM_params (props c) (loadCycleId c + 1 + int k)))))
               [0..<n]
       \<and> trace c' = trace c
           @ concat (map (\<lambda>k. fst (initDOM E (initDOM_params (props c) (loadCycleId c + 1 + int k))))
               [0..<n])
       \<and> map (param_loadCycleId \<circ> env) (drop (length (heap c)) (heap c'))
           = map (\<lambda>k. loadCycleId c + 1 + int k) [0..<n]
       \<and> list_all (\<lambda>d. ready d = Loading \<and> listeners d = installed)
            (drop (length (heap c)) (heap c')))"
proof -
  have s: "synced E c"
    using assms by (rule reachable_synced)
  let ?P = "\<lambda>k. initDOM_params (props c) (loadCycleId c + 1 + int k)"
  obtain c' where r: "run E (replicate n Reload) c = Inr c'"
    and l: "loadCycleId c' = loadCycleId c + int n"
    and ok: "\<forall>k<n. \<not> isl (snd (initDOM E (?P k)))"
    and hp: "heap c' = heap c @ map (\<lambda>k. projr (snd (initDOM E (?P k)))) [0..<n]"
    and tr: "trace c' = trace c @ concat (map (\<lambda>k. fst (initDOM E (?P k))) [0..<n])"
    using reload_run [OF s, of n] unfolding reload_params_def by blast
  have d: "drop (length (heap c)) (heap c') = map (\<lambda>k. projr (snd (initDOM E (?P k)))) [0..<n]"
    by (simp add: hp)
  have t: "map (param_loadCycleId \<circ> env) (drop (length (heap c)) (heap c'))
           = map (\<lambda>k. loadCycleId c + 1 + int k) [0..<n]"
    unfolding d using ok initDOM_projr(1) by (simp add: initDOM_params_def)
  have a: "list_all (\<lambda>d. ready d = Loading \<and> listeners d = installed)
            (drop (length (heap c)) (heap c'))"
    unfolding d using ok initDOM_projr(2,3) by (simp add: list_all_iff)
  show ?thesis
    using mount_loadCycleId [OF assms(1)] r l ok hp tr t a by blast
qed

theorem reload_through_current_handle_witness:
  "mount demo_engine demo_props = Inr (demo_reloaded 0)
   \<and> run demo_engine [] (demo_reloaded 0) = Inr (demo_reloaded 0)
   \<and> run demo_engine (replicate 2 Reload) (demo_reloaded 0) = Inr (demo_reloaded 2)
   \<and> loadCycleId (demo_reloaded 2) = 2
   \<and> length (heap (demo_reloaded 2)) = 3
   \<and> map (param_loadCycleId \<circ> env) (drop 1 (heap (demo_reloaded 2))) = [1, 2]"
proof -
  have m: "mount demo_engine demo_props = Inr (demo_reloaded 0)"
    by (simp add: demo_mount demo_reloaded_0)
  have r0: "run demo_engine [] (demo_reloaded 0) = Inr (demo_reloaded 0)"
    by simp
  have r2: "run demo_engine (replicate 2 Reload) (demo_reloaded 0) = Inr (demo_reloaded 2)"
    by (simp add: numeral_2_eq_2 demo_reloaded_step)
  have h: "length (heap (demo_reloaded 0)) = 1" "loadCycleId (demo_reloaded 0) = 0"
    "length (heap (demo_reloaded 2)) = 3"
    by (simp_all add: demo_reloaded_def demo_component_def)
  have u: "[0..<2] = [0, Suc 0]"
    by (simp add: numeral_2_eq_2)
  show ?thesis
    using reload_through_current_handle [OF m r0, of 2] m r0 r2 h
    by (auto simp: u)
qed

text \<open>
  C6 as stated fails: two calls of \<open>reload\<close> on the handle of the mount, whether the
  component renders between them or only after both, give load cycle 1 and one more DOM
  instance, not two.
\<close>

theorem reload_twice_on_one_handle_counterexample:
  "mount demo_engine demo_props = Inr (demo_reloaded 0)
   \<and> ref_current (demo_reloaded 0) = Some (demo_handle loading)
   \<and> render demo_engine (reload (demo_handle loading) (reload (demo_handle loading) (demo_reloaded 0)))
       = Inr (demo_reloaded 1)
   \<and> render demo_engine (reload (demo_handle loading) (demo_reloaded 1)) = Inr (demo_reloaded 1)
   \<and> length (heap (demo_reloaded 1)) = 2 \<and> loadCycleId (demo_reloaded 1) = 1"
proof -
  have m: "memo (reload (demo_handle loading) (demo_reloaded 1))
             = Some (initDOM_params (props (reload (demo_handle loading) (demo_reloaded 1)))
                       (loadCycleId (reload (demo_handle loading) (demo_reloaded 1))), 1)"
    by (simp add: reload_def demo_handle_def demo_reloaded_def demo_component_def)
  have s: "render demo_engine (reload (demo_handle loading) (demo_reloaded 1)) = Inr (demo_reloaded 1)"
    by (subst render_hit [OF m])
       (simp add: reload_def demo_handle_def demo_reloaded_def demo_component_def)
  have r: "ref_current (demo_reloaded 0) = Some (demo_handle loading)"
    by (simp add: demo_reloaded_0 demo_ref)
  have "reload (demo_handle loading) (reload (demo_handle loading) (demo_reloaded 0))
          = act demo_engine Reload (demo_reloaded 0)"
    by (simp add: via_ref_def r reload_def)
  then have "render demo_engine (reload (demo_handle loading) (reload (demo_handle loading) (demo_reloaded 0)))
       = Inr (demo_reloaded 1)"
    using demo_reloaded_step [of 0] by (simp add: step_def)
  then show ?thesis
    using r s by (simp add: demo_mount demo_reloaded_0) (simp add: demo_reloaded_def demo_component_def)
qed

end
